theory Spec2Isabelle
  imports Complex_Main "HOL-Library.Monad_Syntax"
begin

section \<open>Strings\<close>

text \<open>
  A JavaScript string is modelled as a \<open>string\<close> (a list of 8-bit characters, read as
  UTF-8). All keywords and patterns of the program are ASCII; \<open>toLowerCase\<close> maps
  \<open>A\<close>..\<open>Z\<close> to \<open>a\<close>..\<open>z\<close> and leaves every other byte as it is.
\<close>

definition lower_char :: "char \<Rightarrow> char" where
  "lower_char c =
     (let n = (of_char c :: nat) in if 65 \<le> n \<and> n \<le> 90 then char_of (n + 32) else c)"

definition toLowerCase :: "string \<Rightarrow> string" where
  "toLowerCase s = map lower_char s"

fun startsWith :: "string \<Rightarrow> string \<Rightarrow> bool" where
  "startsWith s [] = True"
| "startsWith [] (k # ks) = False"
| "startsWith (c # cs) (k # ks) = (c = k \<and> startsWith cs ks)"

text \<open>\<open>String.prototype.includes\<close>: the keyword occurs at some position.\<close>

fun str_includes :: "string \<Rightarrow> string \<Rightarrow> bool" where
  "str_includes [] k = startsWith [] k"
| "str_includes (c # cs) k = (startsWith (c # cs) k \<or> str_includes cs k)"

section \<open>Practice mode (lib/practice-mode.ts)\<close>

datatype NVCComponent = observations | feelings | needs | requests

datatype Difficulty = beginner | intermediate | advanced

datatype ConversationMode = single | multi

datatype PracticeModeType = practice | translate

text \<open>The TypeScript unions are string literals; these are the strings they stand for.\<close>

definition componentString :: "NVCComponent \<Rightarrow> string" where
  "componentString c =
     (case c of observations \<Rightarrow> ''observations'' | feelings \<Rightarrow> ''feelings''
      | needs \<Rightarrow> ''needs'' | requests \<Rightarrow> ''requests'')"

definition difficultyString :: "Difficulty \<Rightarrow> string" where
  "difficultyString d =
     (case d of beginner \<Rightarrow> ''beginner'' | intermediate \<Rightarrow> ''intermediate''
      | advanced \<Rightarrow> ''advanced'')"

definition conversationModeString :: "ConversationMode \<Rightarrow> string" where
  "conversationModeString c = (case c of single \<Rightarrow> ''single'' | multi \<Rightarrow> ''multi'')"

definition modeString :: "PracticeModeType \<Rightarrow> string" where
  "modeString m = (case m of practice \<Rightarrow> ''practice'' | translate \<Rightarrow> ''translate'')"

record PracticeMode =
  isPracticeMode :: bool
  mode :: "PracticeModeType option"
  focusComponent :: "NVCComponent option"
  difficulty :: "Difficulty option"
  conversationMode :: "ConversationMode option"

text \<open>Fields of \<open>ScenarioFilter\<close> carry the prefix \<open>f_\<close>, those of \<open>Scenario\<close> that clash
  the prefix \<open>s_\<close>. The index signature \<open>[key: string]: unknown\<close> of \<open>Scenario\<close> is the
  record's extension.\<close>

record ScenarioFilter =
  f_difficulty :: "Difficulty option"
  f_focusComponent :: "string option"
  f_conversationMode :: "ConversationMode option"

record Scenario =
  title :: string
  s_difficulty :: string
  focus_component :: string
  s_mode :: string

subsection \<open>The regular expressions of \<open>componentPatterns\<close>\<close>

text \<open>
  Without the \<open>u\<close> flag, \<open>\w\<close> is \<open>[A-Za-z0-9_]\<close> and \<open>\b\<close> holds between two positions
  exactly one of which is a word character; before the first and after the last
  character there is no word character. A pattern is given by its test at one position:
  the character before the position (if any) and the text from the position on.
  \<open>RegExp.prototype.test\<close> tries every position from left to right.
\<close>

definition is_word_char :: "char \<Rightarrow> bool" where
  "is_word_char c =
     (let n = (of_char c :: nat) in
        (48 \<le> n \<and> n \<le> 57) \<or> (65 \<le> n \<and> n \<le> 90) \<or> n = 95 \<or> (97 \<le> n \<and> n \<le> 122))"

definition is_word :: "char option \<Rightarrow> bool" where
  "is_word x = (case x of None \<Rightarrow> False | Some c \<Rightarrow> is_word_char c)"

definition word_boundary :: "char option \<Rightarrow> string \<Rightarrow> bool" where
  "word_boundary prev rest =
     (is_word prev \<noteq> is_word (case rest of [] \<Rightarrow> None | c # _ \<Rightarrow> Some c))"

fun regex_search :: "(char option \<Rightarrow> string \<Rightarrow> bool) \<Rightarrow> char option \<Rightarrow> string \<Rightarrow> bool" where
  "regex_search pat prev [] = pat prev []"
| "regex_search pat prev (c # cs) = (pat prev (c # cs) \<or> regex_search pat (Some c) cs)"

definition regex_test :: "(char option \<Rightarrow> string \<Rightarrow> bool) \<Rightarrow> string \<Rightarrow> bool" where
  "regex_test pat s = regex_search pat None s"

text \<open>\<open>/\bw/i\<close>: a word boundary, then \<open>w\<close> (the flag \<open>i\<close> compares case-insensitively).\<close>

definition re_word_prefix :: "string \<Rightarrow> char option \<Rightarrow> string \<Rightarrow> bool" where
  "re_word_prefix w prev rest =
     (word_boundary prev rest \<and> startsWith (toLowerCase rest) w)"

text \<open>\<open>/\bws?\b/i\<close>: a word boundary, \<open>w\<close>, an optional \<open>s\<close>, a word boundary. The
  optional \<open>s\<close> is greedy and is given up when the boundary after it fails.\<close>

definition re_word_plural :: "string \<Rightarrow> char option \<Rightarrow> string \<Rightarrow> bool" where
  "re_word_plural w prev rest =
     (word_boundary prev rest \<and> startsWith (toLowerCase rest) w \<and>
      (let after = drop (length w) rest in
         (startsWith (toLowerCase after) ''s'' \<and> word_boundary (Some (CHR ''s'')) (drop 1 after)) \<or>
         word_boundary (Some (last w)) after))"

definition componentPatterns :: "(NVCComponent \<times> (char option \<Rightarrow> string \<Rightarrow> bool)) list" where
  "componentPatterns =
     [(observations, re_word_prefix ''observation''),
      (feelings, re_word_plural ''feeling''),
      (needs, re_word_plural ''need''),
      (requests, re_word_plural ''request'')]"

subsection \<open>\<open>detectPracticeMode\<close>\<close>

definition practiceKeywords :: "string list" where
  "practiceKeywords = [''practice'', ''scenario'']"

definition translateKeywords :: "string list" where
  "translateKeywords = [''translate'', ''transform'']"

definition detectPracticeMode :: "string \<Rightarrow> PracticeMode" where
  "detectPracticeMode message =
     (let lowerMessage = toLowerCase message;
          isPractice = list_ex (\<lambda>keyword. str_includes lowerMessage keyword) practiceKeywords;
          isTranslate = list_ex (\<lambda>keyword. str_includes lowerMessage keyword) translateKeywords
      in if \<not> (isPractice \<or> isTranslate) then
           \<lparr>isPracticeMode = False, mode = None, focusComponent = None,
            difficulty = None, conversationMode = None\<rparr>
         else
           \<lparr>isPracticeMode = True,
            mode = Some (if isTranslate then translate else practice),
            focusComponent =
              map_option fst
                (find (\<lambda>(component, pattern). regex_test pattern lowerMessage) componentPatterns),
            difficulty =
              (if str_includes lowerMessage ''beginner'' then Some beginner
               else if str_includes lowerMessage ''intermediate'' then Some intermediate
               else if str_includes lowerMessage ''advanced'' then Some advanced
               else None),
            conversationMode =
              (if str_includes lowerMessage ''multi-turn'' \<or> str_includes lowerMessage ''multi turn''
               then Some multi
               else if str_includes lowerMessage ''single'' \<or> str_includes lowerMessage ''quick''
               then Some single
               else None)\<rparr>)"

subsection \<open>\<open>filterScenarios\<close>\<close>

text \<open>A criterion is tested for truthiness first: \<open>undefined\<close> and the empty string are
  falsy.\<close>

definition truthy :: "string option \<Rightarrow> bool" where
  "truthy v = (case v of None \<Rightarrow> False | Some s \<Rightarrow> s \<noteq> [])"

definition scenarioPasses :: "ScenarioFilter \<Rightarrow> 'a Scenario_scheme \<Rightarrow> bool" where
  "scenarioPasses flt scenario =
     (if truthy (map_option difficultyString (f_difficulty flt)) \<and>
         Some (s_difficulty scenario) \<noteq> map_option difficultyString (f_difficulty flt)
      then False
      else if truthy (f_focusComponent flt) \<and>
         Some (focus_component scenario) \<noteq> f_focusComponent flt
      then False
      else if truthy (map_option conversationModeString (f_conversationMode flt)) \<and>
         Some (s_mode scenario) \<noteq> map_option conversationModeString (f_conversationMode flt)
      then False
      else True)"

definition filterScenarios ::
    "'a Scenario_scheme list \<Rightarrow> ScenarioFilter \<Rightarrow> 'a Scenario_scheme list" where
  "filterScenarios scenarios flt = filter (scenarioPasses flt) scenarios"

text \<open>The specification's reading of the filter: every criterion that is present must be
  equal to the record's field.\<close>

definition spec_passes :: "ScenarioFilter \<Rightarrow> 'a Scenario_scheme \<Rightarrow> bool" where
  "spec_passes flt scenario =
     ((case f_difficulty flt of None \<Rightarrow> True
       | Some d \<Rightarrow> s_difficulty scenario = difficultyString d) \<and>
      (case f_focusComponent flt of None \<Rightarrow> True
       | Some c \<Rightarrow> focus_component scenario = c) \<and>
      (case f_conversationMode flt of None \<Rightarrow> True
       | Some c \<Rightarrow> s_mode scenario = conversationModeString c))"

text \<open>The scenario catalogue of the test suite (\<open>mockScenarios\<close>).\<close>

definition mockScenarios :: "Scenario list" where
  "mockScenarios =
     [\<lparr>title = ''Beginner Observations'', s_difficulty = ''beginner'',
        focus_component = ''observations'', s_mode = ''single''\<rparr>,
      \<lparr>title = ''Intermediate Feelings'', s_difficulty = ''intermediate'',
        focus_component = ''feelings'', s_mode = ''single''\<rparr>,
      \<lparr>title = ''Advanced Conflict'', s_difficulty = ''advanced'',
        focus_component = ''conflict_resolution'', s_mode = ''multi''\<rparr>,
      \<lparr>title = ''Beginner Full OFNR'', s_difficulty = ''beginner'',
        focus_component = ''all'', s_mode = ''single''\<rparr>]"

section \<open>JSON values, \<open>JSON.parse\<close> and \<open>JSON.stringify\<close>\<close>

text \<open>
  The tracker keeps its record as a JavaScript value and moves it through the platform's
  \<open>JSON.parse\<close> and \<open>JSON.stringify\<close>. A value is modelled as the JSON value it is. An
  object is the list of its properties in creation order. A number is an exact rational:
  the rounding of IEEE doubles is not modelled, and \<open>JSON.stringify\<close> is exact on the
  integers, which are the only numbers the tracker stores (a non-integer is printed with
  at most 17 fractional digits of its decimal expansion).
\<close>

datatype jsval =
    JNull
  | JBool bool
  | JNum rat
  | JStr string
  | JArr "jsval list"
  | JObj "(string \<times> jsval) list"

subsection \<open>Lexical helpers\<close>

definition is_ws :: "char \<Rightarrow> bool" where
  "is_ws c = (c = CHR 0x20 \<or> c = CHR 0x09 \<or> c = CHR 0x0A \<or> c = CHR 0x0D)"

definition skip_ws :: "string \<Rightarrow> string" where
  "skip_ws s = dropWhile is_ws s"

definition is_digit :: "char \<Rightarrow> bool" where
  "is_digit c = (48 \<le> (of_char c :: nat) \<and> (of_char c :: nat) \<le> 57)"

definition digit_val :: "char \<Rightarrow> int" where
  "digit_val c = of_char c - 48"

definition digit_char :: "int \<Rightarrow> char" where
  "digit_char d = char_of (48 + d)"

definition digits_val :: "string \<Rightarrow> int" where
  "digits_val ds = foldl (\<lambda>acc d. acc * 10 + digit_val d) 0 ds"

text \<open>The decimal digits of a non-negative integer.\<close>

function digits_of :: "int \<Rightarrow> string" where
  "digits_of n =
     (if n < 10 then [digit_char n] else digits_of (n div 10) @ [digit_char (n mod 10)])"
  by pat_completeness auto
termination
  by (relation "measure nat") auto

definition hex_val :: "char \<Rightarrow> nat option" where
  "hex_val c =
     (let n = (of_char c :: nat) in
        if 48 \<le> n \<and> n \<le> 57 then Some (n - 48)
        else if 97 \<le> n \<and> n \<le> 102 then Some (n - 87)
        else if 65 \<le> n \<and> n \<le> 70 then Some (n - 55)
        else None)"

definition hex_char :: "nat \<Rightarrow> char" where
  "hex_char d = (if d < 10 then char_of (48 + d) else char_of (87 + d))"

definition hex4 :: "char \<Rightarrow> char \<Rightarrow> char \<Rightarrow> char \<Rightarrow> nat option" where
  "hex4 a b c d =
     (case (hex_val a, hex_val b, hex_val c, hex_val d) of
        (Some x, Some y, Some z, Some w) \<Rightarrow> Some (((x * 16 + y) * 16 + z) * 16 + w)
      | _ \<Rightarrow> None)"

text \<open>The bytes (UTF-8) of the code unit a \<open>\uXXXX\<close> escape denotes.\<close>

definition code_unit :: "nat \<Rightarrow> string" where
  "code_unit n =
     (if n < 128 then [char_of n]
      else if n < 2048 then [char_of (192 + n div 64), char_of (128 + n mod 64)]
      else [char_of (224 + n div 4096), char_of (128 + (n div 64) mod 64),
            char_of (128 + n mod 64)])"

definition unescape :: "char \<Rightarrow> char option" where
  "unescape e =
     (if e = CHR 0x22 then Some (CHR 0x22)
      else if e = CHR 0x5C then Some (CHR 0x5C)
      else if e = CHR ''/'' then Some (CHR ''/'')
      else if e = CHR ''b'' then Some (CHR 0x08)
      else if e = CHR ''f'' then Some (CHR 0x0C)
      else if e = CHR ''n'' then Some (CHR 0x0A)
      else if e = CHR ''r'' then Some (CHR 0x0D)
      else if e = CHR ''t'' then Some (CHR 0x09)
      else None)"

subsection \<open>\<open>JSON.parse\<close>\<close>

text \<open>A string literal, read from just after its opening quote: the string and the
  text after the closing quote.\<close>

fun parse_string :: "string \<Rightarrow> (string \<times> string) option" where
  "parse_string [] = None"
| "parse_string (c # cs) =
     (if c = CHR 0x22 then Some ([], cs)
      else if c = CHR 0x5C then
        (case cs of
           [] \<Rightarrow> None
         | e # r \<Rightarrow>
             if e = CHR ''u'' then
               (case r of
                  h1 # h2 # h3 # h4 # r' \<Rightarrow>
                    (case hex4 h1 h2 h3 h4 of
                       None \<Rightarrow> None
                     | Some n \<Rightarrow>
                         (case parse_string r' of
                            None \<Rightarrow> None
                          | Some (s, rest) \<Rightarrow> Some (code_unit n @ s, rest)))
                | _ \<Rightarrow> None)
             else
               (case unescape e of
                  None \<Rightarrow> None
                | Some ch \<Rightarrow>
                    (case parse_string r of
                       None \<Rightarrow> None
                     | Some (s, rest) \<Rightarrow> Some (ch # s, rest))))
      else if (of_char c :: nat) < 32 then None
      else (case parse_string cs of
              None \<Rightarrow> None
            | Some (s, rest) \<Rightarrow> Some (c # s, rest)))"

text \<open>Numbers: \<open>-? (0 | [1-9][0-9]*) (. [0-9]+)? ([eE] [+-]? [0-9]+)?\<close>.\<close>

definition parse_int_part :: "string \<Rightarrow> (int \<times> string) option" where
  "parse_int_part s =
     (case s of
        [] \<Rightarrow> None
      | c # cs \<Rightarrow>
          if c = CHR ''0'' then Some (0, cs)
          else if is_digit c then Some (digits_val (takeWhile is_digit s), dropWhile is_digit s)
          else None)"

definition parse_digits1 :: "string \<Rightarrow> (int \<times> string) option" where
  "parse_digits1 s =
     (let ds = takeWhile is_digit s in
        if ds = [] then None else Some (digits_val ds, dropWhile is_digit s))"

definition parse_frac :: "string \<Rightarrow> (rat \<times> string) option" where
  "parse_frac s =
     (case s of
        [] \<Rightarrow> Some (0, s)
      | c # cs \<Rightarrow>
          if c = CHR ''.'' then
            (let ds = takeWhile is_digit cs in
               if ds = [] then None
               else Some (of_int (digits_val ds) / 10 ^ length ds, dropWhile is_digit cs))
          else Some (0, s))"

definition parse_exp :: "string \<Rightarrow> (rat \<times> string) option" where
  "parse_exp s =
     (case s of
        [] \<Rightarrow> Some (1, s)
      | c # cs \<Rightarrow>
          if c = CHR ''e'' \<or> c = CHR ''E'' then
            (case cs of
               [] \<Rightarrow> None
             | sg # r \<Rightarrow>
                 if sg = CHR ''-'' then
                   map_option (\<lambda>(e, rest). (1 / 10 ^ nat e, rest)) (parse_digits1 r)
                 else if sg = CHR ''+'' then
                   map_option (\<lambda>(e, rest). (10 ^ nat e, rest)) (parse_digits1 r)
                 else map_option (\<lambda>(e, rest). (10 ^ nat e, rest)) (parse_digits1 cs))
          else Some (1, s))"

definition parse_unsigned :: "string \<Rightarrow> (rat \<times> string) option" where
  "parse_unsigned s =
     (case parse_int_part s of
        None \<Rightarrow> None
      | Some (i, r1) \<Rightarrow>
          (case parse_frac r1 of
             None \<Rightarrow> None
           | Some (f, r2) \<Rightarrow>
               (case parse_exp r2 of
                  None \<Rightarrow> None
                | Some (e, r3) \<Rightarrow> Some ((of_int i + f) * e, r3))))"

definition parse_number :: "string \<Rightarrow> (rat \<times> string) option" where
  "parse_number s =
     (case s of
        [] \<Rightarrow> None
      | c # cs \<Rightarrow>
          if c = CHR ''-'' then map_option (\<lambda>(x, rest). (- x, rest)) (parse_unsigned cs)
          else parse_unsigned s)"

text \<open>An object literal that names a key twice keeps the key's first position and its
  last value.\<close>

definition set_prop :: "string \<Rightarrow> jsval \<Rightarrow> (string \<times> jsval) list \<Rightarrow> (string \<times> jsval) list" where
  "set_prop k v ps =
     (if k \<in> fst ` set ps
      then map (\<lambda>(k', v'). if k' = k then (k', v) else (k', v')) ps
      else ps @ [(k, v)])"

definition make_object :: "(string \<times> jsval) list \<Rightarrow> jsval" where
  "make_object ms = JObj (foldl (\<lambda>ps (k, v). set_prop k v ps) [] ms)"

text \<open>
  The recursive descent, with fuel for the nesting: \<open>parse_value\<close> reads one value,
  \<open>parse_elements\<close> the elements of an array up to its \<open>]\<close>, \<open>parse_members\<close> the members
  of an object up to its \<open>}\<close>. Each returns what it read and the text that follows.
\<close>

fun parse_value :: "nat \<Rightarrow> string \<Rightarrow> (jsval \<times> string) option"
  and parse_elements :: "nat \<Rightarrow> string \<Rightarrow> (jsval list \<times> string) option"
  and parse_members :: "nat \<Rightarrow> string \<Rightarrow> ((string \<times> jsval) list \<times> string) option" where
  "parse_value 0 s = None"
| "parse_value (Suc n) s =
     (case skip_ws s of
        [] \<Rightarrow> None
      | c # cs \<Rightarrow>
          if c = CHR ''{'' then
            (case skip_ws cs of
               [] \<Rightarrow> None
             | d # r \<Rightarrow>
                 if d = CHR ''}'' then Some (JObj [], r)
                 else (case parse_members n cs of
                         None \<Rightarrow> None
                       | Some (ms, rest) \<Rightarrow> Some (make_object ms, rest)))
          else if c = CHR ''['' then
            (case skip_ws cs of
               [] \<Rightarrow> None
             | d # r \<Rightarrow>
                 if d = CHR '']'' then Some (JArr [], r)
                 else (case parse_elements n cs of
                         None \<Rightarrow> None
                       | Some (vs, rest) \<Rightarrow> Some (JArr vs, rest)))
          else if c = CHR 0x22 then
            (case parse_string cs of
               None \<Rightarrow> None
             | Some (str, rest) \<Rightarrow> Some (JStr str, rest))
          else if c = CHR ''-'' \<or> is_digit c then
            (case parse_number (c # cs) of
               None \<Rightarrow> None
             | Some (x, rest) \<Rightarrow> Some (JNum x, rest))
          else if startsWith (c # cs) ''true'' then Some (JBool True, drop 4 (c # cs))
          else if startsWith (c # cs) ''false'' then Some (JBool False, drop 5 (c # cs))
          else if startsWith (c # cs) ''null'' then Some (JNull, drop 4 (c # cs))
          else None)"
| "parse_elements 0 s = None"
| "parse_elements (Suc n) s =
     (case parse_value n s of
        None \<Rightarrow> None
      | Some (v, r) \<Rightarrow>
          (case skip_ws r of
             [] \<Rightarrow> None
           | d # r' \<Rightarrow>
               if d = CHR '','' then
                 (case parse_elements n r' of
                    None \<Rightarrow> None
                  | Some (vs, rest) \<Rightarrow> Some (v # vs, rest))
               else if d = CHR '']'' then Some ([v], r')
               else None))"
| "parse_members 0 s = None"
| "parse_members (Suc n) s =
     (case skip_ws s of
        [] \<Rightarrow> None
      | q # r0 \<Rightarrow>
          if q \<noteq> CHR 0x22 then None
          else
            (case parse_string r0 of
               None \<Rightarrow> None
             | Some (k, r1) \<Rightarrow>
                 (case skip_ws r1 of
                    [] \<Rightarrow> None
                  | col # r2 \<Rightarrow>
                      if col \<noteq> CHR '':'' then None
                      else
                        (case parse_value n r2 of
                           None \<Rightarrow> None
                         | Some (v, r3) \<Rightarrow>
                             (case skip_ws r3 of
                                [] \<Rightarrow> None
                              | d # r4 \<Rightarrow>
                                  if d = CHR '','' then
                                    (case parse_members n r4 of
                                       None \<Rightarrow> None
                                     | Some (ms, rest) \<Rightarrow> Some ((k, v) # ms, rest))
                                  else if d = CHR ''}'' then Some ([(k, v)], r4)
                                  else None)))))"

text \<open>\<open>JSON.parse\<close> throws a \<open>SyntaxError\<close> (here \<open>None\<close>) unless the whole text is one
  value between optional white space. The fuel bounds the depth of the descent by twice
  the length of the text.\<close>

definition JSON_parse :: "string \<Rightarrow> jsval option" where
  "JSON_parse text =
     (case parse_value (2 * length text + 2) text of
        None \<Rightarrow> None
      | Some (v, rest) \<Rightarrow> if skip_ws rest = [] then Some v else None)"

subsection \<open>\<open>JSON.stringify\<close>\<close>

definition escape_char :: "char \<Rightarrow> string" where
  "escape_char c =
     (if c = CHR 0x22 then [CHR 0x5C, CHR 0x22]
      else if c = CHR 0x5C then [CHR 0x5C, CHR 0x5C]
      else if c = CHR 0x08 then [CHR 0x5C, CHR ''b'']
      else if c = CHR 0x0C then [CHR 0x5C, CHR ''f'']
      else if c = CHR 0x0A then [CHR 0x5C, CHR ''n'']
      else if c = CHR 0x0D then [CHR 0x5C, CHR ''r'']
      else if c = CHR 0x09 then [CHR 0x5C, CHR ''t'']
      else if (of_char c :: nat) < 32 then
        [CHR 0x5C, CHR ''u'', CHR ''0'', CHR ''0'',
         hex_char (of_char c div 16), hex_char (of_char c mod 16)]
      else [c])"

definition quote :: "string \<Rightarrow> string" where
  "quote s = CHR 0x22 # concat (map escape_char s) @ [CHR 0x22]"

fun frac_digits :: "nat \<Rightarrow> rat \<Rightarrow> string" where
  "frac_digits 0 x = []"
| "frac_digits (Suc n) x =
     (if x = 0 then []
      else digit_char \<lfloor>x * 10\<rfloor> # frac_digits n (x * 10 - of_int \<lfloor>x * 10\<rfloor>))"

definition number_text :: "rat \<Rightarrow> string" where
  "number_text x =
     (let a = \<bar>x\<bar>; i = \<lfloor>a\<rfloor>; f = a - of_int i in
        (if x < 0 then ''-'' else []) @ digits_of i @
        (if f = 0 then [] else CHR ''.'' # frac_digits 17 f))"

fun join :: "string \<Rightarrow> string list \<Rightarrow> string" where
  "join sep [] = []"
| "join sep [x] = x"
| "join sep (x # y # ys) = x @ sep @ join sep (y # ys)"

fun JSON_stringify :: "jsval \<Rightarrow> string" where
  "JSON_stringify JNull = ''null''"
| "JSON_stringify (JBool b) = (if b then ''true'' else ''false'')"
| "JSON_stringify (JNum x) = number_text x"
| "JSON_stringify (JStr s) = quote s"
| "JSON_stringify (JArr vs) = ''['' @ join '','' (map JSON_stringify vs) @ '']''"
| "JSON_stringify (JObj ps) =
     ''{'' @ join '','' (map (\<lambda>(k, v). quote k @ '':'' @ JSON_stringify v) ps) @ ''}''"

subsection \<open>Values that \<open>JSON.stringify\<close> writes exactly\<close>

text \<open>
  \<open>exact_json\<close>: every number is an integer and no object names a key twice.
  \<open>descent\<close> bounds the fuel the parser needs to read the value back, and \<open>delimited\<close>
  holds of a text that ends the value before it: the end, a comma or a closing bracket.
\<close>

fun exact_json :: "jsval \<Rightarrow> bool" where
  "exact_json (JNum x) = (of_int \<lfloor>x\<rfloor> = x)"
| "exact_json (JArr vs) = (\<forall>v \<in> set vs. exact_json v)"
| "exact_json (JObj ps) = (distinct (map fst ps) \<and> (\<forall>p \<in> set ps. exact_json (snd p)))"
| "exact_json v = True"

fun descent :: "jsval \<Rightarrow> nat" where
  "descent (JArr vs) = 1 + sum_list (map (\<lambda>v. 1 + descent v) vs)"
| "descent (JObj ps) = 1 + sum_list (map (\<lambda>p. 1 + descent (snd p)) ps)"
| "descent v = 1"

definition delimited :: "string \<Rightarrow> bool" where
  "delimited rest =
     (case rest of [] \<Rightarrow> True | c # _ \<Rightarrow> c = CHR '','' \<or> c = CHR '']'' \<or> c = CHR ''}'')"

section \<open>Numbers in arithmetic: IEEE 754 binary64\<close>

text \<open>
  A JavaScript number is a double. A finite double is a rational, and every arithmetic
  operator computes the exact result and rounds it to the nearest double, a tie to the
  double with an even significand: \<open>fl\<close> is that rounding. For \<open>x\<close> in the binade
  \<open>2 ^ e \<le> \<bar>x\<bar> < 2 ^ (e + 1)\<close> the doubles are the multiples of \<open>2 ^ (e - 52)\<close>; below
  \<open>2 ^ - 1022\<close> (the subnormal range) they are the multiples of \<open>2 ^ - 1074\<close>. A result of
  magnitude \<open>2 ^ 1024\<close> or more is \<open>Infinity\<close> in JavaScript; such numbers are outside this
  model.
\<close>

definition pow2 :: "int \<Rightarrow> rat" where
  "pow2 k = (if 0 \<le> k then 2 ^ nat k else 1 / 2 ^ nat (- k))"

text \<open>The number of binary digits of a positive integer.\<close>

function bit_length :: "int \<Rightarrow> int" where
  "bit_length n = (if n \<le> 0 then 0 else 1 + bit_length (n div 2))"
  by pat_completeness auto
termination
  by (relation "measure nat") auto

declare bit_length.simps [simp del]

text \<open>The binade of a positive rational \<open>x\<close>: the \<open>e\<close> with \<open>2 ^ e \<le> x < 2 ^ (e + 1)\<close>.\<close>

definition binade :: "rat \<Rightarrow> int" where
  "binade x =
     (let (p, q) = quotient_of x; b = bit_length p - bit_length q
      in if x < pow2 b then b - 1 else b)"

text \<open>Rounding to the nearest integer, a tie to the even one.\<close>

definition round_even :: "rat \<Rightarrow> int" where
  "round_even m =
     (let f = \<lfloor>m\<rfloor>; r = m - of_int f in
        if r < 1 / 2 then f else if 1 / 2 < r then f + 1
        else if even f then f else f + 1)"

definition fl :: "rat \<Rightarrow> rat" where
  "fl x =
     (if x = 0 then 0
      else let a = \<bar>x\<bar>; e = max (binade a) (- 1022); u = pow2 (e - 52)
           in sgn x * of_int (round_even (a / u)) * u)"

text \<open>\<open>Math.round\<close>: the nearest integer, a tie upwards. Its argument is a double and
  its result is exact.\<close>

definition Math_round :: "rat \<Rightarrow> int" where
  "Math_round x = \<lfloor>x + 1 / 2\<rfloor>"

section \<open>Progress tracking (lib/progress-tracking.ts)\<close>

subsection \<open>Data\<close>

text \<open>Fields of \<open>PracticeAttempt\<close> carry the prefix \<open>att_\<close>, those of
  \<open>RecordAttemptInput\<close> the prefix \<open>in_\<close>. An optional field is an \<open>option\<close>;
  \<open>rating\<close> is the integer score of the specification's data model.

  The \<open>rating\<close> of a stored attempt has a third state. \<open>getStats\<close> tells \<open>undefined\<close>
  (the property is absent) from every other value, and a record read by \<open>JSON.parse\<close>
  can hold \<open>null\<close> there, which the serialization format writes for an absent field.
\<close>

datatype 'a nullable = Undefined | Null | Value 'a

record PracticeAttempt =
  att_id :: string
  att_scenarioId :: string
  att_timestamp :: int
  att_mode :: PracticeModeType
  att_focusComponent :: "NVCComponent option"
  att_difficulty :: "Difficulty option"
  att_rating :: "int nullable"
  att_completed :: bool

record RecordAttemptInput =
  in_scenarioId :: string
  in_mode :: PracticeModeType
  in_completed :: bool
  in_focusComponent :: "NVCComponent option"
  in_difficulty :: "Difficulty option"
  in_rating :: "int option"

record ProgressData =
  enabled :: bool
  attempts :: "PracticeAttempt list"
  completedScenarios :: "string list"
  streakDays :: int
  lastPracticeDate :: "string option"
  totalPracticeTime :: int

record ProgressStats =
  totalAttempts :: nat
  completedAttempts :: nat
  completionRate :: int
  averageRating :: rat
  stats_streakDays :: int
  byComponent :: "(string \<times> nat) list"
  byDifficulty :: "(string \<times> nat) list"
  byMode :: "(string \<times> nat) list"

record DisableOptions =
  clearData :: "bool option"

definition STORAGE_KEY :: string where
  "STORAGE_KEY = ''nvc_progress''"

text \<open>
  \<open>DEFAULT_PROGRESS_DATA\<close> is a module constant whose two arrays are mutable objects. The
  copy \<open>{ ...DEFAULT_PROGRESS_DATA }\<close> is shallow: its \<open>attempts\<close> and \<open>completedScenarios\<close>
  are the constant's own arrays, so a \<open>push\<close> through the copy changes the constant.
  \<open>DefaultArrays\<close> is the current content of the two arrays.
\<close>

record DefaultArrays =
  defaultAttempts :: "PracticeAttempt list"
  defaultCompletedScenarios :: "string list"

definition DEFAULT_PROGRESS_DATA :: "DefaultArrays \<Rightarrow> ProgressData" where
  "DEFAULT_PROGRESS_DATA m =
     \<lparr>enabled = False, attempts = defaultAttempts m,
      completedScenarios = defaultCompletedScenarios m,
      streakDays = 0, lastPracticeDate = None, totalPracticeTime = 0\<rparr>"

text \<open>The constant as the module declares it, before any \<open>push\<close>.\<close>

definition declaredArrays :: DefaultArrays where
  "declaredArrays = \<lparr>defaultAttempts = [], defaultCompletedScenarios = []\<rparr>"

subsection \<open>The host: clock and time zone\<close>

text \<open>
  What one call reads from its environment: the identifier \<open>generateId()\<close> returns, the
  time value of \<open>Date.now()\<close> and \<open>new Date()\<close> (milliseconds since the epoch, UTC), and
  the time zone. \<open>localTZA t isUTC\<close> is the offset of local time from UTC in milliseconds,
  as ECMAScript's \<open>LocalTZA\<close>: at the UTC time value \<open>t\<close> when \<open>isUTC\<close>, at the local time
  value \<open>t\<close> otherwise. The clock reads of one call are taken at one instant.
\<close>

record Host =
  generatedId :: string
  dateNow :: int
  localTZA :: "int \<Rightarrow> bool \<Rightarrow> int"

definition generateId :: "Host \<Rightarrow> string" where
  "generateId h = generatedId h"

definition msPerDay :: int where
  "msPerDay = 86400000"

definition LocalTime :: "Host \<Rightarrow> int \<Rightarrow> int" where
  "LocalTime h t = t + localTZA h t True"

definition UTC :: "Host \<Rightarrow> int \<Rightarrow> int" where
  "UTC h t = t - localTZA h t False"

text \<open>Year, month and day of the month of a day number (days since 1970-01-01) in the
  proleptic Gregorian calendar, computed by 400 year eras that start on 1 March.\<close>

definition civil_from_days :: "int \<Rightarrow> int \<times> int \<times> int" where
  "civil_from_days days =
     (let z = days + 719468;
          era = z div 146097;
          doe = z - era * 146097;
          yoe = (doe - doe div 1460 + doe div 36524 - doe div 146096) div 365;
          doy = doe - (365 * yoe + yoe div 4 - yoe div 100);
          mp = (5 * doy + 2) div 153;
          d = doy - (153 * mp + 2) div 5 + 1;
          m = (if mp < 10 then mp + 3 else mp - 9);
          y = yoe + era * 400 + (if m \<le> 2 then 1 else 0)
      in (y, m, d))"

definition pad_digits :: "nat \<Rightarrow> int \<Rightarrow> string" where
  "pad_digits w n = replicate (w - length (digits_of n)) (CHR ''0'') @ digits_of n"

text \<open>\<open>new Date(t).toISOString().split('T')[0]\<close>: the UTC date of the time value \<open>t\<close> as
  \<open>YYYY-MM-DD\<close>, a year outside 0..9999 with a sign and six digits.\<close>

definition isoDate :: "int \<Rightarrow> string" where
  "isoDate t =
     (let (y, m, d) = civil_from_days (t div msPerDay) in
        (if 0 \<le> y \<and> y \<le> 9999 then pad_digits 4 y
         else (if y < 0 then ''-'' else ''+'') @ pad_digits 6 \<bar>y\<bar>) @
        ''-'' @ pad_digits 2 m @ ''-'' @ pad_digits 2 d)"

definition getToday :: "Host \<Rightarrow> string" where
  "getToday h = isoDate (dateNow h)"

text \<open>
  \<open>yesterday.setDate(yesterday.getDate() - 1)\<close> works in local time: it takes the local
  time of the \<open>Date\<close>, replaces the day of the month by the one before, which moves the
  local time back by one day with the time within the day unchanged, and converts the
  result back to UTC. \<open>toISOString\<close> then prints the UTC date.
\<close>

definition setDate_previous :: "Host \<Rightarrow> int \<Rightarrow> int" where
  "setDate_previous h t = UTC h (LocalTime h t - msPerDay)"

definition isYesterday :: "Host \<Rightarrow> string \<Rightarrow> bool" where
  "isYesterday h dateStr = (dateStr = isoDate (setDate_previous h (dateNow h)))"

definition isToday :: "Host \<Rightarrow> string \<Rightarrow> bool" where
  "isToday h dateStr = (dateStr = getToday h)"

text \<open>\<open>localStorage\<close>: \<open>None\<close> when the host has none (\<open>typeof localStorage ===
  'undefined'\<close>), else the stored strings by key.\<close>

type_synonym Storage = "(string \<Rightarrow> string option) option"

definition setItem :: "string \<Rightarrow> string \<Rightarrow> Storage \<Rightarrow> Storage" where
  "setItem k v st = map_option (\<lambda>m. m(k \<mapsto> v)) st"

subsection \<open>The record as a JavaScript value\<close>

text \<open>
  \<open>progressToJS\<close> is the object a \<open>ProgressData\<close> is at run time, with the keys in the
  order the program creates them; a property that holds \<open>undefined\<close> is left out, as
  \<open>JSON.stringify\<close> leaves it out. \<open>asProgressData\<close> reads a JavaScript value at the
  declared type: every required property present with a value of its type, every
  optional one absent or of its type, \<open>rating\<close> also \<open>null\<close>.
\<close>

definition optional_prop :: "string \<Rightarrow> ('a \<Rightarrow> jsval) \<Rightarrow> 'a option \<Rightarrow> (string \<times> jsval) list" where
  "optional_prop k f x = (case x of None \<Rightarrow> [] | Some y \<Rightarrow> [(k, f y)])"

definition nullable_prop :: "string \<Rightarrow> ('a \<Rightarrow> jsval) \<Rightarrow> 'a nullable \<Rightarrow> (string \<times> jsval) list" where
  "nullable_prop k f x =
     (case x of Undefined \<Rightarrow> [] | Null \<Rightarrow> [(k, JNull)] | Value y \<Rightarrow> [(k, f y)])"

definition attemptToJS :: "PracticeAttempt \<Rightarrow> jsval" where
  "attemptToJS a =
     JObj ([(''id'', JStr (att_id a)),
            (''timestamp'', JNum (of_int (att_timestamp a))),
            (''scenarioId'', JStr (att_scenarioId a)),
            (''mode'', JStr (modeString (att_mode a))),
            (''completed'', JBool (att_completed a))] @
           optional_prop ''focusComponent'' (\<lambda>c. JStr (componentString c)) (att_focusComponent a) @
           optional_prop ''difficulty'' (\<lambda>d. JStr (difficultyString d)) (att_difficulty a) @
           nullable_prop ''rating'' (\<lambda>r. JNum (of_int r)) (att_rating a))"

definition progressToJS :: "ProgressData \<Rightarrow> jsval" where
  "progressToJS d =
     JObj [(''enabled'', JBool (enabled d)),
           (''attempts'', JArr (map attemptToJS (attempts d))),
           (''completedScenarios'', JArr (map JStr (completedScenarios d))),
           (''streakDays'', JNum (of_int (streakDays d))),
           (''lastPracticeDate'', (case lastPracticeDate d of None \<Rightarrow> JNull | Some s \<Rightarrow> JStr s)),
           (''totalPracticeTime'', JNum (of_int (totalPracticeTime d)))]"

definition asBool :: "jsval \<Rightarrow> bool option" where
  "asBool v = (case v of JBool b \<Rightarrow> Some b | _ \<Rightarrow> None)"

definition asString :: "jsval \<Rightarrow> string option" where
  "asString v = (case v of JStr s \<Rightarrow> Some s | _ \<Rightarrow> None)"

definition asInt :: "jsval \<Rightarrow> int option" where
  "asInt v = (case v of JNum x \<Rightarrow> (if of_int \<lfloor>x\<rfloor> = x then Some \<lfloor>x\<rfloor> else None) | _ \<Rightarrow> None)"

definition asMode :: "jsval \<Rightarrow> PracticeModeType option" where
  "asMode v =
     (case v of
        JStr s \<Rightarrow> (if s = ''practice'' then Some practice
                   else if s = ''translate'' then Some translate else None)
      | _ \<Rightarrow> None)"

definition asComponent :: "jsval \<Rightarrow> NVCComponent option" where
  "asComponent v =
     (case v of
        JStr s \<Rightarrow> (if s = ''observations'' then Some observations
                   else if s = ''feelings'' then Some feelings
                   else if s = ''needs'' then Some needs
                   else if s = ''requests'' then Some requests else None)
      | _ \<Rightarrow> None)"

definition asDifficulty :: "jsval \<Rightarrow> Difficulty option" where
  "asDifficulty v =
     (case v of
        JStr s \<Rightarrow> (if s = ''beginner'' then Some beginner
                   else if s = ''intermediate'' then Some intermediate
                   else if s = ''advanced'' then Some advanced else None)
      | _ \<Rightarrow> None)"

definition required :: "(string \<times> jsval) list \<Rightarrow> string \<Rightarrow> (jsval \<Rightarrow> 'a option) \<Rightarrow> 'a option" where
  "required ps k f = (case map_of ps k of None \<Rightarrow> None | Some v \<Rightarrow> f v)"

definition optional :: "(string \<times> jsval) list \<Rightarrow> string \<Rightarrow> (jsval \<Rightarrow> 'a option) \<Rightarrow> 'a option option" where
  "optional ps k f = (case map_of ps k of None \<Rightarrow> Some None | Some v \<Rightarrow> map_option Some (f v))"

definition nullable_field :: "(string \<times> jsval) list \<Rightarrow> string \<Rightarrow> (jsval \<Rightarrow> 'a option) \<Rightarrow> 'a nullable option" where
  "nullable_field ps k f =
     (case map_of ps k of
        None \<Rightarrow> Some Undefined
      | Some JNull \<Rightarrow> Some Null
      | Some v \<Rightarrow> map_option Value (f v))"

definition asAttempt :: "jsval \<Rightarrow> PracticeAttempt option" where
  "asAttempt v =
     (case v of
        JObj ps \<Rightarrow>
          do {
            i \<leftarrow> required ps ''id'' asString;
            sid \<leftarrow> required ps ''scenarioId'' asString;
            ts \<leftarrow> required ps ''timestamp'' asInt;
            m \<leftarrow> required ps ''mode'' asMode;
            c \<leftarrow> required ps ''completed'' asBool;
            fc \<leftarrow> optional ps ''focusComponent'' asComponent;
            df \<leftarrow> optional ps ''difficulty'' asDifficulty;
            rt \<leftarrow> nullable_field ps ''rating'' asInt;
            Some \<lparr>att_id = i, att_scenarioId = sid, att_timestamp = ts, att_mode = m,
                  att_focusComponent = fc, att_difficulty = df, att_rating = rt,
                  att_completed = c\<rparr>
          }
      | _ \<Rightarrow> None)"

definition asArray :: "(jsval \<Rightarrow> 'a option) \<Rightarrow> jsval \<Rightarrow> 'a list option" where
  "asArray f v = (case v of JArr vs \<Rightarrow> those (map f vs) | _ \<Rightarrow> None)"

definition asDate :: "jsval \<Rightarrow> string option option" where
  "asDate v = (case v of JNull \<Rightarrow> Some None | JStr s \<Rightarrow> Some (Some s) | _ \<Rightarrow> None)"

definition asProgressData :: "jsval \<Rightarrow> ProgressData option" where
  "asProgressData v =
     (case v of
        JObj ps \<Rightarrow>
          do {
            e \<leftarrow> required ps ''enabled'' asBool;
            ats \<leftarrow> required ps ''attempts'' (asArray asAttempt);
            cs \<leftarrow> required ps ''completedScenarios'' (asArray asString);
            sd \<leftarrow> required ps ''streakDays'' asInt;
            lp \<leftarrow> required ps ''lastPracticeDate'' asDate;
            tp \<leftarrow> required ps ''totalPracticeTime'' asInt;
            Some \<lparr>enabled = e, attempts = ats, completedScenarios = cs, streakDays = sd,
                  lastPracticeDate = lp, totalPracticeTime = tp\<rparr>
          }
      | _ \<Rightarrow> None)"

text \<open>A text read as a serialized record: \<open>None\<close> when it is not JSON or the JSON value
  is not a \<open>ProgressData\<close>.\<close>

definition parseProgressData :: "string \<Rightarrow> ProgressData option" where
  "parseProgressData json = JSON_parse json \<bind> asProgressData"

text \<open>The text \<open>exportData\<close> and \<open>saveData\<close> write for a record.\<close>

definition serialize :: "ProgressData \<Rightarrow> string" where
  "serialize d = JSON_stringify (progressToJS d)"

subsection \<open>The tracker at its declared type\<close>

text \<open>
  The state of one tracker of the module: its variable \<open>data\<close> at the declared type
  \<open>ProgressData\<close>; whether the arrays of \<open>data\<close> are the arrays of
  \<open>DEFAULT_PROGRESS_DATA\<close> (\<open>data\<close> came from the shallow copy) or its own (\<open>data\<close> came
  from \<open>JSON.parse\<close>); the content of the constant's arrays; and \<open>localStorage\<close>.
\<close>

record Tracker =
  data :: ProgressData
  sharesDefault :: bool
  defaults :: DefaultArrays
  localStorage :: Storage

definition saveData :: "Tracker \<Rightarrow> Tracker" where
  "saveData t = t\<lparr>localStorage := setItem STORAGE_KEY (serialize (data t)) (localStorage t)\<rparr>"

definition updateStreak :: "Host \<Rightarrow> ProgressData \<Rightarrow> ProgressData" where
  "updateStreak h d =
     (let today = getToday h in
        case lastPracticeDate d of
          None \<Rightarrow> d\<lparr>streakDays := 1, lastPracticeDate := Some today\<rparr>
        | Some l \<Rightarrow>
            if isToday h l then d
            else if isYesterday h l then
              d\<lparr>streakDays := streakDays d + 1, lastPracticeDate := Some today\<rparr>
            else d\<lparr>streakDays := 1, lastPracticeDate := Some today\<rparr>)"

definition isEnabled :: "Tracker \<Rightarrow> bool" where
  "isEnabled t = enabled (data t)"

definition enable :: "Tracker \<Rightarrow> Tracker" where
  "enable t = saveData (t\<lparr>data := (data t)\<lparr>enabled := True\<rparr>\<rparr>)"

definition disable :: "DisableOptions option \<Rightarrow> Tracker \<Rightarrow> Tracker" where
  "disable options t =
     (let t1 = t\<lparr>data := (data t)\<lparr>enabled := False\<rparr>\<rparr>;
          t2 = (if (case options of None \<Rightarrow> False | Some opts \<Rightarrow> clearData opts = Some True)
                then t1\<lparr>data := DEFAULT_PROGRESS_DATA (defaults t1), sharesDefault := True\<rparr>
                else t1)
      in saveData t2)"

text \<open>\<open>data.attempts.push\<close> and \<open>data.completedScenarios.push\<close>: when the array is the
  constant's, the constant sees the new element.\<close>

definition push_attempt :: "PracticeAttempt \<Rightarrow> Tracker \<Rightarrow> Tracker" where
  "push_attempt a t =
     (let pushed = attempts (data t) @ [a] in
        t\<lparr>data := (data t)\<lparr>attempts := pushed\<rparr>,
          defaults := (if sharesDefault t then (defaults t)\<lparr>defaultAttempts := pushed\<rparr>
                       else defaults t)\<rparr>)"

definition push_completed :: "string \<Rightarrow> Tracker \<Rightarrow> Tracker" where
  "push_completed sid t =
     (let pushed = completedScenarios (data t) @ [sid] in
        t\<lparr>data := (data t)\<lparr>completedScenarios := pushed\<rparr>,
          defaults := (if sharesDefault t then (defaults t)\<lparr>defaultCompletedScenarios := pushed\<rparr>
                       else defaults t)\<rparr>)"

definition recordAttempt :: "Host \<Rightarrow> RecordAttemptInput \<Rightarrow> Tracker \<Rightarrow> Tracker" where
  "recordAttempt h input t =
     (if \<not> enabled (data t) then t
      else
        let attempt =
              \<lparr>att_id = generateId h, att_scenarioId = in_scenarioId input,
               att_timestamp = dateNow h, att_mode = in_mode input,
               att_focusComponent = in_focusComponent input,
               att_difficulty = in_difficulty input,
               att_rating = (case in_rating input of None \<Rightarrow> Undefined | Some r \<Rightarrow> Value r),
               att_completed = in_completed input\<rparr>;
            t1 = push_attempt attempt t;
            t2 = (if in_completed input \<and>
                     in_scenarioId input \<notin> set (completedScenarios (data t1))
                  then push_completed (in_scenarioId input) t1 else t1);
            t3 = t2\<lparr>data := updateStreak h (data t2)\<rparr>
        in saveData t3)"

definition getAttempts :: "Tracker \<Rightarrow> PracticeAttempt list" where
  "getAttempts t = attempts (data t)"

definition getCompletedScenarios :: "Tracker \<Rightarrow> string list" where
  "getCompletedScenarios t = completedScenarios (data t)"

definition getStreak :: "Tracker \<Rightarrow> int" where
  "getStreak t = streakDays (data t)"

definition isScenarioCompleted :: "Tracker \<Rightarrow> string \<Rightarrow> bool" where
  "isScenarioCompleted t sid = (sid \<in> set (completedScenarios (data t)))"

definition getAttemptsForScenario :: "Tracker \<Rightarrow> string \<Rightarrow> PracticeAttempt list" where
  "getAttemptsForScenario t sid = filter (\<lambda>a. att_scenarioId a = sid) (attempts (data t))"

subsection \<open>\<open>getStats\<close>\<close>

text \<open>\<open>counts[k] = (counts[k] || 0) + 1\<close> on an object used as a dictionary.\<close>

definition count_key :: "(string \<times> nat) list \<Rightarrow> string \<Rightarrow> (string \<times> nat) list" where
  "count_key counts k =
     (case map_of counts k of
        None \<Rightarrow> counts @ [(k, 1)]
      | Some n \<Rightarrow> map (\<lambda>(k', n'). if k' = k then (k', n + 1) else (k', n')) counts)"

text \<open>\<open>a.rating || 0\<close>: the rating, and 0 for \<open>null\<close> (and for \<open>undefined\<close>, which the
  filter of \<open>ratedAttempts\<close> has removed).\<close>

definition rating_or_zero :: "PracticeAttempt \<Rightarrow> int" where
  "rating_or_zero a = (case att_rating a of Value r \<Rightarrow> r | _ \<Rightarrow> 0)"

text \<open>The ratings that are numbers: the attempts ``whose rating is present''.\<close>

definition presentRatings :: "PracticeAttempt list \<Rightarrow> int list" where
  "presentRatings atts =
     List.map_filter (\<lambda>a. case att_rating a of Value r \<Rightarrow> Some r | _ \<Rightarrow> None) atts"

text \<open>Every quotient, product and sum of \<open>getStats\<close> is a double operation, rounded by
  \<open>fl\<close>; the lengths and the constants 100 and 10 are doubles already.\<close>

definition getStats :: "Tracker \<Rightarrow> ProgressStats" where
  "getStats t =
     (let atts = attempts (data t);
          completed = length (filter att_completed atts);
          ratedAttempts = filter (\<lambda>a. att_rating a \<noteq> Undefined) atts
      in \<lparr>totalAttempts = length atts,
          completedAttempts = completed,
          completionRate =
            (if length atts > 0
             then Math_round (fl (fl (of_nat completed / of_nat (length atts)) * 100)) else 0),
          averageRating =
            (if length ratedAttempts > 0
             then fl (of_int (Math_round
                    (fl (fl (foldl (\<lambda>sum a. fl (sum + of_int (rating_or_zero a))) 0 ratedAttempts
                             / of_nat (length ratedAttempts)) * 10))) / 10)
             else 0),
          stats_streakDays = streakDays (data t),
          byComponent =
            foldl (\<lambda>counts a. case att_focusComponent a of None \<Rightarrow> counts
                    | Some c \<Rightarrow> count_key counts (componentString c)) [] atts,
          byDifficulty =
            foldl (\<lambda>counts a. case att_difficulty a of None \<Rightarrow> counts
                    | Some d \<Rightarrow> count_key counts (difficultyString d)) [] atts,
          byMode = foldl (\<lambda>counts a. count_key counts (modeString (att_mode a))) [] atts\<rparr>)"

subsection \<open>The tracker at run time: \<open>loadData\<close>, \<open>exportData\<close>, \<open>importData\<close>\<close>

text \<open>
  \<open>loadData\<close> and \<open>importData\<close> assign to \<open>data\<close> whatever \<open>JSON.parse\<close> returns; the cast
  \<open>as ProgressData\<close> checks nothing. These operations never look inside the value, so
  they are modelled on the run-time value of \<open>data\<close>.
\<close>

record JsTracker =
  js_data :: jsval
  js_localStorage :: Storage

definition loadData :: "DefaultArrays \<Rightarrow> Storage \<Rightarrow> jsval" where
  "loadData m st =
     (case st of
        None \<Rightarrow> progressToJS (DEFAULT_PROGRESS_DATA m)
      | Some items \<Rightarrow>
          (case items STORAGE_KEY of
             None \<Rightarrow> progressToJS (DEFAULT_PROGRESS_DATA m)
           | Some stored \<Rightarrow>
               if stored = [] then progressToJS (DEFAULT_PROGRESS_DATA m)
               else (case JSON_parse stored of
                       None \<Rightarrow> progressToJS (DEFAULT_PROGRESS_DATA m)
                     | Some parsed \<Rightarrow> parsed)))"

definition createProgressTracker :: "DefaultArrays \<Rightarrow> Storage \<Rightarrow> JsTracker" where
  "createProgressTracker m st = \<lparr>js_data = loadData m st, js_localStorage = st\<rparr>"

definition exportData :: "JsTracker \<Rightarrow> string" where
  "exportData t = JSON_stringify (js_data t)"

definition importData :: "string \<Rightarrow> JsTracker \<Rightarrow> JsTracker" where
  "importData json t =
     (case JSON_parse json of
        None \<Rightarrow> t
      | Some imported \<Rightarrow>
          \<lparr>js_data = imported,
           js_localStorage = setItem STORAGE_KEY (JSON_stringify imported) (js_localStorage t)\<rparr>)"

text \<open>The tracker a freshly loaded module creates when nothing is stored: \<open>data\<close> is the
  shallow copy of the constant.\<close>

definition freshTracker :: "Storage \<Rightarrow> Tracker" where
  "freshTracker st =
     \<lparr>data = DEFAULT_PROGRESS_DATA declaredArrays, sharesDefault = True,
      defaults = declaredArrays, localStorage = st\<rparr>"

subsection \<open>The ledger invariant\<close>

definition completed_backed :: "ProgressData \<Rightarrow> bool" where
  "completed_backed d =
     list_all (\<lambda>sid. list_ex (\<lambda>a. att_completed a \<and> att_scenarioId a = sid) (attempts d))
       (completedScenarios d)"

definition ledger_invariant :: "ProgressData \<Rightarrow> bool" where
  "ledger_invariant d = (completed_backed d \<and> distinct (completedScenarios d))"

text \<open>The states a tracker reaches from a fresh one by \<open>enable\<close>, \<open>disable\<close> and
  \<open>recordAttempt\<close>.\<close>

inductive reachable :: "Tracker \<Rightarrow> bool" where
  fresh: "reachable (freshTracker st)"
| enable: "reachable t \<Longrightarrow> reachable (enable t)"
| disable: "reachable t \<Longrightarrow> reachable (disable options t)"
| recordAttempt: "reachable t \<Longrightarrow> reachable (recordAttempt h input t)"

subsection \<open>Examples from the test suite\<close>

text \<open>A host in UTC at 2026-01-29T00:00:00Z.\<close>

definition exampleHost :: Host where
  "exampleHost =
     \<lparr>generatedId = ''attempt-1769644800000-k3j9x2m1q'', dateNow = 1769644800000,
      localTZA = (\<lambda>t isUTC. 0)\<rparr>"

definition attemptInput :: "string \<Rightarrow> PracticeModeType \<Rightarrow> bool \<Rightarrow> int option \<Rightarrow> RecordAttemptInput" where
  "attemptInput sid m c r =
     \<lparr>in_scenarioId = sid, in_mode = m, in_completed = c, in_focusComponent = None,
      in_difficulty = None, in_rating = r\<rparr>"

text \<open>A tracker whose \<open>data\<close> was read from storage by \<open>loadData\<close>.\<close>

definition storedTracker :: "ProgressData \<Rightarrow> Tracker" where
  "storedTracker d =
     \<lparr>data = d, sharesDefault = False, defaults = declaredArrays,
      localStorage = Some (Map.empty(STORAGE_KEY \<mapsto> serialize d))\<rparr>"

text \<open>``maintains streak for consecutive days'': one attempt, made the day before.\<close>

definition yesterdayData :: ProgressData where
  "yesterdayData =
     \<lparr>enabled = True,
      attempts = [\<lparr>att_id = ''old-attempt'', att_scenarioId = ''old-scenario'',
                   att_timestamp = 1769558400000, att_mode = practice,
                   att_focusComponent = None, att_difficulty = None, att_rating = Undefined,
                   att_completed = True\<rparr>],
      completedScenarios = [''old-scenario''], streakDays = 1,
      lastPracticeDate = Some ''2026-01-28'', totalPracticeTime = 0\<rparr>"

text \<open>``loads existing progress from localStorage'': a record with a completed scenario
  and no attempt.\<close>

definition existingData :: ProgressData where
  "existingData =
     \<lparr>enabled = True, attempts = [], completedScenarios = [''scenario-1''], streakDays = 5,
      lastPracticeDate = Some ''2026-01-28'', totalPracticeTime = 3600\<rparr>"

text \<open>``calculates completion rate'' and ``calculates average rating''.\<close>

definition completionExample :: Tracker where
  "completionExample =
     recordAttempt exampleHost (attemptInput ''s4'' practice True None)
       (recordAttempt exampleHost (attemptInput ''s3'' practice True None)
         (recordAttempt exampleHost (attemptInput ''s2'' translate False None)
           (recordAttempt exampleHost (attemptInput ''s1'' practice True None)
             (enable (freshTracker (Some Map.empty))))))"

definition ratingExample :: Tracker where
  "ratingExample =
     recordAttempt exampleHost (attemptInput ''s3'' practice True (Some 3))
       (recordAttempt exampleHost (attemptInput ''s2'' practice True (Some 5))
         (recordAttempt exampleHost (attemptInput ''s1'' practice True (Some 4))
           (enable (freshTracker (Some Map.empty)))))"

subsection \<open>Further examples\<close>

text \<open>
  Europe/London in 2026: GMT, and British Summer Time (one hour ahead) from
  2026-03-29T01:00:00Z to 2026-10-25T01:00:00Z. A local time in the hour skipped in March
  is read with the offset before the change, one in the hour repeated in October as the
  earlier instant.
\<close>

definition londonTZA :: "int \<Rightarrow> bool \<Rightarrow> int" where
  "londonTZA t isUTC =
     (if isUTC then (if 1774746000000 \<le> t \<and> t < 1792890000000 then 3600000 else 0)
      else (if 1774746000000 + 3600000 \<le> t \<and> t < 1792890000000 + 3600000 then 3600000
            else 0))"

text \<open>London at 2026-03-29T12:00:00Z (13:00 local) and at 2026-03-29T23:30:00Z (00:30
  local on 30 March).\<close>

definition londonNoon :: Host where
  "londonNoon =
     \<lparr>generatedId = ''attempt-1774785600000-k3j9x2m1q'', dateNow = 1774785600000,
      localTZA = londonTZA\<rparr>"

definition londonNight :: Host where
  "londonNight =
     \<lparr>generatedId = ''attempt-1774827000000-k3j9x2m1q'', dateNow = 1774827000000,
      localTZA = londonTZA\<rparr>"

text \<open>A record with a streak of three days, last practised on 2026-03-28.\<close>

definition marchData :: ProgressData where
  "marchData =
     \<lparr>enabled = True,
      attempts = [\<lparr>att_id = ''attempt-1774699200000-k3j9x2m1q'', att_scenarioId = ''s1'',
                   att_timestamp = 1774699200000, att_mode = practice,
                   att_focusComponent = None, att_difficulty = None, att_rating = Undefined,
                   att_completed = True\<rparr>],
      completedScenarios = [''s1''], streakDays = 3,
      lastPracticeDate = Some ''2026-03-28'', totalPracticeTime = 0\<rparr>"

text \<open>A stored record with 23 completed attempts of 40.\<close>

definition storedAttempt :: "bool \<Rightarrow> int nullable \<Rightarrow> PracticeAttempt" where
  "storedAttempt c r =
     \<lparr>att_id = ''attempt-1769644800000-k3j9x2m1q'', att_scenarioId = ''s1'',
      att_timestamp = 1769644800000, att_mode = practice, att_focusComponent = None,
      att_difficulty = None, att_rating = r, att_completed = c\<rparr>"

definition attemptsData :: "PracticeAttempt list \<Rightarrow> ProgressData" where
  "attemptsData atts =
     \<lparr>enabled = True, attempts = atts, completedScenarios = [''s1''], streakDays = 1,
      lastPracticeDate = Some ''2026-01-29'', totalPracticeTime = 0\<rparr>"

definition fortyExample :: Tracker where
  "fortyExample =
     storedTracker (attemptsData
       (replicate 23 (storedAttempt True Undefined) @ replicate 17 (storedAttempt False Undefined)))"

text \<open>A stored record with the ratings 4 and \<open>null\<close>, and one with the ratings
  \<open>2 ^ 53\<close>, 1 and 1.\<close>

definition nullRatingExample :: Tracker where
  "nullRatingExample =
     storedTracker (attemptsData [storedAttempt True (Value 4), storedAttempt True Null])"

definition bigRatingExample :: Tracker where
  "bigRatingExample =
     storedTracker (attemptsData
       [storedAttempt True (Value 9007199254740992), storedAttempt True (Value 1),
        storedAttempt True (Value 1)])"

subsection \<open>The invariant of the tracker\<close>

text \<open>What the operations maintain besides: the constant's arrays satisfy the invariant
  too, and a tracker that shares them sees their content.\<close>

definition tracker_inv :: "Tracker \<Rightarrow> bool" where
  "tracker_inv t \<longleftrightarrow>
     ledger_invariant (data t) \<and>
     ledger_invariant (DEFAULT_PROGRESS_DATA (defaults t)) \<and>
     (sharesDefault t \<longrightarrow>
        attempts (data t) = defaultAttempts (defaults t) \<and>
        completedScenarios (data t) = defaultCompletedScenarios (defaults t))"

section \<open>Theorems: practice mode\<close>

lemma startsWith_iff: "startsWith s k \<longleftrightarrow> (\<exists>q. s = k @ q)"
  by (induction s k rule: startsWith.induct) auto

lemma str_includes_iff: "str_includes s k \<longleftrightarrow> (\<exists>p q. s = p @ k @ q)"
proof (induction s)
  case Nil
  then show ?case by (cases k) auto
next
  case (Cons c cs)
  have "(\<exists>p q. c # cs = p @ k @ q) \<longleftrightarrow> (\<exists>q. c # cs = k @ q) \<or> (\<exists>p q. cs = p @ k @ q)"
    (is "?L \<longleftrightarrow> ?A \<or> ?B")
  proof
    assume ?L
    then obtain p q where pq: "c # cs = p @ k @ q" by blast
    show "?A \<or> ?B"
    proof (cases p)
      case Nil
      with pq show ?thesis by auto
    next
      case (Cons a p')
      with pq have "cs = p' @ k @ q" by simp
      then show ?thesis by blast
    qed
  next
    assume "?A \<or> ?B"
    then show ?L
    proof
      assume ?A
      then obtain q where "c # cs = [] @ k @ q" by auto
      then show ?L by blast
    next
      assume ?B
      then obtain p q where "cs = p @ k @ q" by blast
      then have "c # cs = (c # p) @ k @ q" by simp
      then show ?L by blast
    qed
  qed
  with Cons show ?case by (simp add: startsWith_iff)
qed

text \<open>
  C5. \<open>detectPracticeMode\<close> reports a practice request exactly when the lower-cased
  message contains \<open>practice\<close>, \<open>scenario\<close>, \<open>translate\<close> or \<open>transform\<close>; the mode is
  \<open>translate\<close> when a translate keyword occurs (whether or not a practice keyword occurs
  as well) and \<open>practice\<close> otherwise; and when there is no practice request, \<open>mode\<close>,
  \<open>focusComponent\<close>, \<open>difficulty\<close> and \<open>conversationMode\<close> are all absent.
\<close>

theorem detect_keywords:
  "(isPracticeMode (detectPracticeMode message) \<longleftrightarrow>
      (\<exists>p q. toLowerCase message = p @ ''practice'' @ q) \<or>
      (\<exists>p q. toLowerCase message = p @ ''scenario'' @ q) \<or>
      (\<exists>p q. toLowerCase message = p @ ''translate'' @ q) \<or>
      (\<exists>p q. toLowerCase message = p @ ''transform'' @ q)) \<and>
   (isPracticeMode (detectPracticeMode message) \<longrightarrow>
      mode (detectPracticeMode message) =
        Some (if (\<exists>p q. toLowerCase message = p @ ''translate'' @ q) \<or>
                 (\<exists>p q. toLowerCase message = p @ ''transform'' @ q)
              then translate else practice)) \<and>
   (\<not> isPracticeMode (detectPracticeMode message) \<longrightarrow>
      mode (detectPracticeMode message) = None \<and>
      focusComponent (detectPracticeMode message) = None \<and>
      difficulty (detectPracticeMode message) = None \<and>
      conversationMode (detectPracticeMode message) = None)"
  unfolding str_includes_iff [symmetric]
  by (simp add: detectPracticeMode_def Let_def practiceKeywords_def translateKeywords_def)

theorem detect_keywords_witness:
  "isPracticeMode (detectPracticeMode ''Translate this PRACTICE scenario'') \<and>
   mode (detectPracticeMode ''Translate this PRACTICE scenario'') = Some translate \<and>
   \<not> isPracticeMode (detectPracticeMode ''What is NVC?'') \<and>
   focusComponent (detectPracticeMode ''What is NVC?'') = None"
proof -
  have a: "toLowerCase ''Translate this PRACTICE scenario'' =
      [] @ ''translate'' @ '' this practice scenario''"
    by code_simp
  have b: "\<not> isPracticeMode (detectPracticeMode ''What is NVC?'')"
    by code_simp
  from a have c: "\<exists>p q. toLowerCase ''Translate this PRACTICE scenario'' = p @ ''translate'' @ q"
    by blast
  show ?thesis
    using detect_keywords [of "''Translate this PRACTICE scenario''"]
      detect_keywords [of "''What is NVC?''"] b c
    by presburger
qed

text \<open>
  C6. The focus component is the first component, in the order Observations, Feelings,
  Needs, Requests, whose singular/plural word pattern matches. The pattern the program
  uses for Observations is \<open>/\bobservation/i\<close>, with no end of word: on
  \<open>practice observational feelings\<close> the program answers \<open>observations\<close>, although
  \<open>observation(s)\<close> as a word does not occur and \<open>feelings\<close> does.
\<close>

theorem detect_focus_observational:
  "focusComponent (detectPracticeMode ''practice observational feelings'') = Some observations \<and>
   regex_test (re_word_plural ''observation'')
     (toLowerCase ''practice observational feelings'') = False \<and>
   regex_test (re_word_plural ''feeling'')
     (toLowerCase ''practice observational feelings'') = True"
  by code_simp

lemma difficultyString_nonempty: "difficultyString d \<noteq> []"
  by (cases d) (simp_all add: difficultyString_def)

lemma conversationModeString_nonempty: "conversationModeString c \<noteq> []"
  by (cases c) (simp_all add: conversationModeString_def)

lemma scenarioPasses_iff:
  "scenarioPasses flt sc \<longleftrightarrow>
     spec_passes (flt\<lparr>f_focusComponent :=
        (if f_focusComponent flt = Some [] then None else f_focusComponent flt)\<rparr>) sc"
  by (auto simp: scenarioPasses_def spec_passes_def truthy_def difficultyString_nonempty
      conversationModeString_nonempty split: option.splits)

text \<open>
  C8, as the program has it. \<open>filterScenarios\<close> keeps, in the order of the input, exactly
  the records whose field equals every criterion that is present and not the empty
  string; an empty-string \<open>focusComponent\<close> is treated as absent. When \<open>focusComponent\<close>
  is not the empty string this is the specification's filter, and empty criteria return
  the input unchanged.
\<close>

theorem filterScenarios_amended:
  "filterScenarios scenarios flt =
     filter (spec_passes (flt\<lparr>f_focusComponent :=
        (if f_focusComponent flt = Some [] then None else f_focusComponent flt)\<rparr>)) scenarios \<and>
   (f_focusComponent flt \<noteq> Some [] \<longrightarrow>
      filterScenarios scenarios flt = filter (spec_passes flt) scenarios) \<and>
   filterScenarios scenarios
     \<lparr>f_difficulty = None, f_focusComponent = None, f_conversationMode = None\<rparr> = scenarios"
proof -
  have 1: "filterScenarios scenarios flt =
     filter (spec_passes (flt\<lparr>f_focusComponent :=
        (if f_focusComponent flt = Some [] then None else f_focusComponent flt)\<rparr>)) scenarios"
    unfolding filterScenarios_def by (rule filter_cong) (simp_all add: scenarioPasses_iff)
  have 2: "f_focusComponent flt \<noteq> Some [] \<longrightarrow>
      filterScenarios scenarios flt = filter (spec_passes flt) scenarios"
    using 1 by simp
  have 3: "filterScenarios scenarios
     \<lparr>f_difficulty = None, f_focusComponent = None, f_conversationMode = None\<rparr> = scenarios"
    by (simp add: filterScenarios_def scenarioPasses_def truthy_def)
  from 1 2 3 show ?thesis by blast
qed

theorem filterScenarios_amended_witness:
  "filterScenarios mockScenarios
     \<lparr>f_difficulty = Some beginner, f_focusComponent = None, f_conversationMode = None\<rparr> =
   [\<lparr>title = ''Beginner Observations'', s_difficulty = ''beginner'',
        focus_component = ''observations'', s_mode = ''single''\<rparr>,
    \<lparr>title = ''Beginner Full OFNR'', s_difficulty = ''beginner'',
        focus_component = ''all'', s_mode = ''single''\<rparr>]"
  using filterScenarios_amended [of mockScenarios
     "\<lparr>f_difficulty = Some beginner, f_focusComponent = None, f_conversationMode = None\<rparr>"]
  by (simp add: mockScenarios_def spec_passes_def difficultyString_def)

text \<open>The claim as stated fails for the criteria \<open>{focusComponent: ''}\<close>: the criterion
  is present and differs from the record's \<open>feelings\<close>, yet the record is returned.\<close>

theorem filterScenarios_empty_focus_counterexample:
  "filterScenarios
     [\<lparr>title = ''Intermediate Feelings'', s_difficulty = ''intermediate'',
        focus_component = ''feelings'', s_mode = ''single''\<rparr>]
     \<lparr>f_difficulty = None, f_focusComponent = Some [], f_conversationMode = None\<rparr> =
   [\<lparr>title = ''Intermediate Feelings'', s_difficulty = ''intermediate'',
        focus_component = ''feelings'', s_mode = ''single''\<rparr>] \<and>
   \<not> spec_passes
     \<lparr>f_difficulty = None, f_focusComponent = Some [], f_conversationMode = None\<rparr>
     \<lparr>title = ''Intermediate Feelings'', s_difficulty = ''intermediate'',
        focus_component = ''feelings'', s_mode = ''single''\<rparr>"
  by (simp add: filterScenarios_def scenarioPasses_def spec_passes_def truthy_def)

section \<open>Theorems: JSON\<close>

subsection \<open>Numbers\<close>

declare digits_of.simps [simp del]

lemma is_digit_int: "is_digit c \<longleftrightarrow> 48 \<le> (of_char c :: int) \<and> (of_char c :: int) \<le> 57"
proof -
  have "(of_char c :: int) = int (of_char c)" by (simp add: of_nat_of_char)
  then show ?thesis by (simp add: is_digit_def)
qed

lemma digit_char_props:
  assumes "0 \<le> d" "d < 10"
  shows "digit_val (digit_char d) = d" "is_digit (digit_char d)"
    "digit_char d = CHR ''0'' \<longleftrightarrow> d = 0" "digit_char d \<noteq> CHR ''-''"
proof -
  have m: "(48 + d) mod 256 = 48 + d" using assms by simp
  show "digit_val (digit_char d) = d" by (simp add: digit_val_def digit_char_def m)
  show "is_digit (digit_char d)" using assms by (simp add: is_digit_int digit_char_def m)
  have "digit_char d = CHR ''0'' \<longleftrightarrow> (of_char (digit_char d) :: int) = of_char (CHR ''0'')"
    by (simp only: of_char_eq_iff)
  then show "digit_char d = CHR ''0'' \<longleftrightarrow> d = 0" by (simp add: digit_char_def m)
  have "digit_char d = CHR ''-'' \<longleftrightarrow> (of_char (digit_char d) :: int) = of_char (CHR ''-'')"
    by (simp only: of_char_eq_iff)
  then show "digit_char d \<noteq> CHR ''-''" using assms by (simp add: digit_char_def m)
qed

lemma digits_val_snoc: "digits_val (ds @ [d]) = digits_val ds * 10 + digit_val d"
  by (simp add: digits_val_def)

lemma digits_of_props:
  "0 \<le> n \<Longrightarrow>
   digits_of n \<noteq> [] \<and> (\<forall>c \<in> set (digits_of n). is_digit c) \<and>
   digits_val (digits_of n) = n \<and> (hd (digits_of n) = CHR ''0'' \<longrightarrow> n = 0)"
proof (induction n rule: digits_of.induct)
  case (1 n)
  show ?case
  proof (cases "n < 10")
    case True
    with "1.prems" show ?thesis
      by (simp add: digits_of.simps [of n] digit_char_props digits_val_def)
  next
    case False
    then have d: "digits_of n = digits_of (n div 10) @ [digit_char (n mod 10)]"
      by (simp add: digits_of.simps [of n])
    from False have q: "0 \<le> n div 10" "n div 10 \<noteq> 0" by simp_all
    from "1.IH" [OF False q(1)] q(2)
    have ih: "digits_of (n div 10) \<noteq> []" "\<forall>c \<in> set (digits_of (n div 10)). is_digit c"
      "digits_val (digits_of (n div 10)) = n div 10" "hd (digits_of (n div 10)) \<noteq> CHR ''0''"
      by auto
    have r: "0 \<le> n mod 10" "n mod 10 < 10" by simp_all
    show ?thesis
      unfolding d using ih r
      by (simp add: digits_val_snoc digit_char_props)
  qed
qed

lemma delimited_facts:
  assumes "delimited rest"
  shows "takeWhile is_digit rest = []" "dropWhile is_digit rest = rest"
    "parse_frac rest = Some (0, rest)" "parse_exp rest = Some (1, rest)"
    "skip_ws rest = rest"
  using assms
  by (cases rest; auto simp: delimited_def is_digit_def parse_frac_def parse_exp_def skip_ws_def
      is_ws_def)+

lemma parse_unsigned_digits:
  assumes n: "0 \<le> n" and rest: "delimited rest"
  shows "parse_unsigned (digits_of n @ rest) = Some (of_int n, rest)"
proof -
  from digits_of_props [OF n]
  have p: "digits_of n \<noteq> []" "\<forall>c \<in> set (digits_of n). is_digit c"
    "digits_val (digits_of n) = n" "hd (digits_of n) = CHR ''0'' \<longrightarrow> n = 0"
    by auto
  obtain c cs where cs: "digits_of n = c # cs" using p(1) by (cases "digits_of n") auto
  have tw: "takeWhile is_digit (digits_of n @ rest) = digits_of n"
    using p(2) delimited_facts(1) [OF rest] by (simp add: takeWhile_append2)
  have dw: "dropWhile is_digit (digits_of n @ rest) = rest"
    using p(2) delimited_facts(2) [OF rest] by (simp add: dropWhile_append2)
  have ip: "parse_int_part (digits_of n @ rest) = Some (n, rest)"
  proof (cases "c = CHR ''0''")
    case True
    with p(4) cs have "n = 0" by simp
    then have "digits_of n = ''0''" by (simp add: digits_of.simps [of 0] digit_char_props)
    then show ?thesis using \<open>n = 0\<close> by (simp add: parse_int_part_def)
  next
    case False
    have "is_digit c" using p(2) cs by simp
    with False tw dw p(3) show ?thesis
      unfolding cs by (simp add: parse_int_part_def)
  qed
  show ?thesis
    by (simp add: parse_unsigned_def ip delimited_facts [OF rest])
qed

lemma number_text_int:
  "number_text (of_int i) = (if i < 0 then ''-'' else []) @ digits_of \<bar>i\<bar>"
proof -
  have "\<bar>(of_int i :: rat)\<bar> = of_int \<bar>i\<bar>" by simp
  then show ?thesis
    unfolding number_text_def Let_def by (simp only: floor_of_int) simp
qed

lemma parse_number_int:
  assumes "delimited rest"
  shows "parse_number (number_text (of_int i) @ rest) = Some (of_int i, rest)"
proof (cases "i < 0")
  case True
  then have "0 \<le> - i" by simp
  from parse_unsigned_digits [OF this assms] True show ?thesis
    by (simp add: number_text_int parse_number_def)
next
  case False
  then have n: "0 \<le> i" by simp
  from digits_of_props [OF n] obtain c cs where cs: "digits_of i = c # cs" "is_digit c"
    by (cases "digits_of i") auto
  have "c \<noteq> CHR ''-''" using cs(2) by (auto simp: is_digit_def)
  with parse_unsigned_digits [OF n assms] False cs show ?thesis
    by (simp add: number_text_int parse_number_def)
qed

subsection \<open>Strings\<close>

lemma char_eq_nat: "c = d \<longleftrightarrow> (of_char c :: nat) = of_char d"
  by simp

lemma hex_val_hex_char: "d < 16 \<Longrightarrow> hex_val (hex_char d) = Some d"
proof -
  assume d: "d < 16"
  then have m: "(48 + d) mod 256 = 48 + d" "(87 + d) mod 256 = 87 + d" by simp_all
  show ?thesis using d by (auto simp: hex_val_def hex_char_def Let_def m)
qed

lemma hex_val_zero: "hex_val (CHR ''0'') = Some 0"
  by (simp add: hex_val_def)

lemma parse_string_escape:
  "parse_string (escape_char c @ tail) =
     (case parse_string tail of None \<Rightarrow> None | Some (s, rest) \<Rightarrow> Some (c # s, rest))"
proof -
  let ?n = "of_char c :: nat"
  consider (quote) "c = CHR 0x22" | (backslash) "c = CHR 0x5C"
    | (short) "c = CHR 0x08 \<or> c = CHR 0x0C \<or> c = CHR 0x0A \<or> c = CHR 0x0D \<or> c = CHR 0x09"
    | (control) "c \<noteq> CHR 0x22" "c \<noteq> CHR 0x5C" "c \<noteq> CHR 0x08" "c \<noteq> CHR 0x0C"
        "c \<noteq> CHR 0x0A" "c \<noteq> CHR 0x0D" "c \<noteq> CHR 0x09" "?n < 32"
    | (plain) "c \<noteq> CHR 0x22" "c \<noteq> CHR 0x5C" "\<not> ?n < 32"
    by (auto simp: char_eq_nat)
  then show ?thesis
  proof cases
    case quote
    then show ?thesis by (auto simp: escape_char_def unescape_def split: option.splits)
  next
    case backslash
    then show ?thesis by (auto simp: escape_char_def unescape_def split: option.splits)
  next
    case short
    then show ?thesis by (auto simp: escape_char_def unescape_def split: option.splits)
  next
    case control
    have h: "hex4 (CHR ''0'') (CHR ''0'') (hex_char (?n div 16)) (hex_char (?n mod 16)) = Some ?n"
      using control(8) by (simp add: hex4_def hex_val_zero hex_val_hex_char)
    have u: "code_unit ?n = [c]" using control(8) by (simp add: code_unit_def)
    have e: "escape_char c =
        [CHR 0x5C, CHR ''u'', CHR ''0'', CHR ''0'', hex_char (?n div 16), hex_char (?n mod 16)]"
      using control by (simp add: escape_char_def)
    show ?thesis by (simp add: e h u split: option.splits)
  next
    case plain
    then have e: "escape_char c = [c]"
      by (auto simp: escape_char_def char_eq_nat)
    show ?thesis using plain by (simp add: e split: option.splits)
  qed
qed

lemma parse_string_escaped:
  "parse_string (concat (map escape_char s) @ CHR 0x22 # rest) = Some (s, rest)"
  by (induction s) (simp_all add: parse_string_escape)

lemma parse_string_quote: "parse_string (tl (quote s) @ rest) = Some (s, rest)"
  by (simp add: quote_def parse_string_escaped)

lemma quote_Cons: "quote s = CHR 0x22 # tl (quote s)"
  by (simp add: quote_def)

subsection \<open>\<open>JSON.parse\<close> reads back what \<open>JSON.stringify\<close> writes\<close>

lemma number_head:
  "\<exists>c cs. number_text (of_int i) = c # cs \<and> (c = CHR ''-'' \<or> is_digit c)"
proof (cases "i < 0")
  case True
  then show ?thesis by (simp add: number_text_int)
next
  case False
  then have "0 \<le> \<bar>i\<bar>" by simp
  from digits_of_props [OF this] obtain c cs where "digits_of \<bar>i\<bar> = c # cs" "is_digit c"
    by (cases "digits_of \<bar>i\<bar>") auto
  with False show ?thesis by (simp add: number_text_int)
qed

lemma exact_number: "exact_json (JNum x) \<Longrightarrow> \<exists>i. x = of_int i"
  by (metis exact_json.simps(1))

lemma value_head:
  "exact_json v \<Longrightarrow>
   \<exists>c cs. JSON_stringify v = c # cs \<and> \<not> is_ws c \<and> c \<noteq> CHR '']'' \<and> c \<noteq> CHR ''}''"
proof (cases v)
  case (JNum x)
  assume "exact_json v"
  with JNum obtain i where i: "x = of_int i" using exact_number by blast
  from number_head [of i] obtain c cs where
    c: "number_text (of_int i) = c # cs" "c = CHR ''-'' \<or> is_digit c" by blast
  from c(2) have "\<not> is_ws c \<and> c \<noteq> CHR '']'' \<and> c \<noteq> CHR ''}''"
    by (auto simp: is_digit_def is_ws_def)
  with c(1) JNum i show ?thesis by simp
qed (auto simp: is_ws_def quote_def)

lemma skip_ws_value:
  "exact_json v \<Longrightarrow> skip_ws (JSON_stringify v @ rest) = JSON_stringify v @ rest"
  using value_head [of v] by (auto simp: skip_ws_def)

lemma parse_value_null:
  "delimited rest \<Longrightarrow> parse_value (Suc m) (''null'' @ rest) = Some (JNull, rest)"
  by (simp add: skip_ws_def is_ws_def is_digit_def)

lemma parse_value_bool:
  "delimited rest \<Longrightarrow>
   parse_value (Suc m) ((if b then ''true'' else ''false'') @ rest) = Some (JBool b, rest)"
  by (simp add: skip_ws_def is_ws_def is_digit_def)

lemma parse_value_number:
  assumes "delimited rest"
  shows "parse_value (Suc m) (number_text (of_int i) @ rest) = Some (JNum (of_int i), rest)"
proof -
  from number_head [of i] obtain c cs where
    c: "number_text (of_int i) = c # cs" "c = CHR ''-'' \<or> is_digit c" by blast
  from c(2) have n: "\<not> is_ws c" "c \<noteq> CHR ''{''" "c \<noteq> CHR ''[''" "c \<noteq> CHR 0x22"
    by (auto simp: is_digit_def is_ws_def)
  have p: "parse_number (c # cs @ rest) = Some (of_int i, rest)"
    using parse_number_int [OF assms, of i] c(1) by simp
  show ?thesis
    unfolding c(1) using n c(2) p by (simp add: skip_ws_def)
qed

lemma parse_value_string:
  "parse_value (Suc m) (quote s @ rest) = Some (JStr s, rest)"
proof -
  have "parse_value (Suc m) (CHR 0x22 # tl (quote s) @ rest) = Some (JStr s, rest)"
    by (simp add: skip_ws_def is_ws_def parse_string_quote)
  then show ?thesis using quote_Cons [of s] by (metis append_Cons)
qed

lemma parse_elements_join:
  assumes ih: "\<And>v n rest. v \<in> set vs \<Longrightarrow> descent v \<le> n \<Longrightarrow> delimited rest \<Longrightarrow>
      parse_value n (JSON_stringify v @ rest) = Some (v, rest)"
    and ne: "vs \<noteq> []"
    and fuel: "sum_list (map (\<lambda>v. 1 + descent v) vs) \<le> m"
  shows "parse_elements m (join '','' (map JSON_stringify vs) @ CHR '']'' # rest) = Some (vs, rest)"
  using assms
proof (induction vs arbitrary: m)
  case Nil
  then show ?case by simp
next
  case (Cons v ws)
  note prems = Cons.prems and IH = Cons.IH
  from Cons.prems(3) obtain m' where m: "m = Suc m'" "descent v \<le> m'"
    "sum_list (map (\<lambda>v. 1 + descent v) ws) \<le> m'"
    by (cases m) auto
  show ?case
  proof (cases ws)
    case Nil
    have "parse_value m' (JSON_stringify v @ CHR '']'' # rest) = Some (v, CHR '']'' # rest)"
      by (rule prems(1)) (simp_all add: m delimited_def)
    then show ?thesis
      by (simp add: Nil m skip_ws_def is_ws_def)
  next
    case (Cons w ws')
    let ?tail = "join '','' (map JSON_stringify ws) @ CHR '']'' # rest"
    have v: "parse_value m' (JSON_stringify v @ CHR '','' # ?tail) = Some (v, CHR '','' # ?tail)"
      by (rule prems(1)) (simp_all add: m delimited_def)
    have r: "parse_elements m' ?tail = Some (ws, rest)"
    proof (rule IH)
      show "\<And>v n rest. v \<in> set ws \<Longrightarrow> descent v \<le> n \<Longrightarrow> delimited rest \<Longrightarrow>
          parse_value n (JSON_stringify v @ rest) = Some (v, rest)"
        using prems(1) by simp
      show "ws \<noteq> []" by (simp add: Cons)
      show "sum_list (map (\<lambda>v. 1 + descent v) ws) \<le> m'" by (rule m(3))
    qed
    from v r show ?thesis
      by (simp add: Cons m skip_ws_def is_ws_def)
  qed
qed

lemma parse_members_join:
  assumes ih: "\<And>p n rest. p \<in> set ps \<Longrightarrow> descent (snd p) \<le> n \<Longrightarrow> delimited rest \<Longrightarrow>
      parse_value n (JSON_stringify (snd p) @ rest) = Some (snd p, rest)"
    and ne: "ps \<noteq> []"
    and fuel: "sum_list (map (\<lambda>p. 1 + descent (snd p)) ps) \<le> m"
  shows "parse_members m
      (join '','' (map (\<lambda>(k, v). quote k @ '':'' @ JSON_stringify v) ps) @ CHR ''}'' # rest)
    = Some (ps, rest)"
  using assms
proof (induction ps arbitrary: m)
  case Nil
  then show ?case by simp
next
  case (Cons p qs)
  note prems = Cons.prems and IH = Cons.IH
  obtain k v where p: "p = (k, v)" by (cases p)
  from Cons.prems(3) obtain m' where m: "m = Suc m'" "descent v \<le> m'"
    "sum_list (map (\<lambda>p. 1 + descent (snd p)) qs) \<le> m'"
    by (cases m) (auto simp: p)
  have key: "\<And>t. skip_ws (quote k @ t) = CHR 0x22 # tl (quote k) @ t"
    by (simp add: quote_def skip_ws_def is_ws_def)
  have str: "\<And>t. parse_string (tl (quote k) @ CHR '':'' # t) = Some (k, CHR '':'' # t)"
    by (rule parse_string_quote)
  show ?case
  proof (cases qs)
    case Nil
    have "parse_value m' (JSON_stringify v @ CHR ''}'' # rest) = Some (v, CHR ''}'' # rest)"
      using prems(1) [of p m' "CHR ''}'' # rest"] by (simp add: p m delimited_def)
    then show ?thesis
      by (simp add: Nil p m key str) (simp add: skip_ws_def is_ws_def)
  next
    case (Cons q qs')
    let ?tail = "join '','' (map (\<lambda>(k, v). quote k @ '':'' @ JSON_stringify v) qs) @ CHR ''}'' # rest"
    have v: "parse_value m' (JSON_stringify v @ CHR '','' # ?tail) = Some (v, CHR '','' # ?tail)"
      using prems(1) [of p m' "CHR '','' # ?tail"] by (simp add: p m delimited_def)
    have r: "parse_members m' ?tail = Some (qs, rest)"
    proof (rule IH)
      show "\<And>p n rest. p \<in> set qs \<Longrightarrow> descent (snd p) \<le> n \<Longrightarrow> delimited rest \<Longrightarrow>
          parse_value n (JSON_stringify (snd p) @ rest) = Some (snd p, rest)"
        using prems(1) by simp
      show "qs \<noteq> []" by (simp add: Cons)
      show "sum_list (map (\<lambda>p. 1 + descent (snd p)) qs) \<le> m'" by (rule m(3))
    qed
    from v r show ?thesis
      by (simp add: Cons p m key str) (simp add: skip_ws_def is_ws_def)
  qed
qed

lemma set_prop_fresh: "k \<notin> fst ` set ps \<Longrightarrow> set_prop k v ps = ps @ [(k, v)]"
  by (simp add: set_prop_def)

lemma foldl_set_prop:
  "distinct (map fst (acc @ ps)) \<Longrightarrow>
   foldl (\<lambda>ps (k, v). set_prop k v ps) acc ps = acc @ ps"
proof (induction ps arbitrary: acc)
  case Nil
  then show ?case by simp
next
  case (Cons p ps)
  obtain k v where p: "p = (k, v)" by (cases p)
  from Cons.prems have "k \<notin> fst ` set acc" by (auto simp: p)
  then have s: "set_prop k v acc = acc @ [(k, v)]" by (rule set_prop_fresh)
  from Cons.prems have "distinct (map fst ((acc @ [(k, v)]) @ ps))" by (simp add: p)
  from Cons.IH [OF this] show ?case by (simp add: p s)
qed

lemma make_object_distinct: "distinct (map fst ps) \<Longrightarrow> make_object ps = JObj ps"
  using foldl_set_prop [of "[]" ps] by (simp add: make_object_def)

lemma parse_value_roundtrip:
  "exact_json v \<Longrightarrow> descent v \<le> n \<Longrightarrow> delimited rest \<Longrightarrow>
   parse_value n (JSON_stringify v @ rest) = Some (v, rest)"
proof (induction v arbitrary: n rest)
  case JNull
  then show ?case using parse_value_null [of rest] by (cases n) simp_all
next
  case (JBool b)
  then show ?case using parse_value_bool [of rest _ b] by (cases n) simp_all
next
  case (JNum x)
  then obtain i where "x = of_int i" using exact_number by blast
  with JNum show ?case using parse_value_number [of rest _ i] by (cases n) simp_all
next
  case (JStr s)
  then show ?case using parse_value_string [of _ s rest] by (cases n) simp_all
next
  case (JArr vs)
  from JArr.prems(2) obtain m where m: "n = Suc m" "sum_list (map (\<lambda>v. 1 + descent v) vs) \<le> m"
    by (cases n) auto
  show ?case
  proof (cases vs)
    case Nil
    then show ?thesis by (simp add: m skip_ws_def is_ws_def)
  next
    case (Cons w ws)
    have ih: "\<And>v n rest. v \<in> set vs \<Longrightarrow> descent v \<le> n \<Longrightarrow> delimited rest \<Longrightarrow>
        parse_value n (JSON_stringify v @ rest) = Some (v, rest)"
      using JArr.IH JArr.prems(1) by simp
    let ?body = "join '','' (map JSON_stringify vs) @ CHR '']'' # rest"
    have els: "parse_elements m ?body = Some (vs, rest)"
      by (rule parse_elements_join [OF ih _ m(2)]) (simp_all add: Cons)
    have "exact_json w" using JArr.prems(1) Cons by simp
    from value_head [OF this] obtain c cs where
      c: "JSON_stringify w = c # cs" "\<not> is_ws c" "c \<noteq> CHR '']''" by blast
    have "\<exists>t. ?body = c # t" using c(1) Cons by (cases ws) simp_all
    then obtain t where t: "?body = c # t" by blast
    have sk: "skip_ws ?body = c # t" unfolding t using c(2) by (simp add: skip_ws_def)
    have "parse_value (Suc m) (CHR ''['' # ?body) = Some (JArr vs, rest)"
      using els sk c(3) by (simp add: skip_ws_def is_ws_def)
    then show ?thesis by (simp add: m)
  qed
next
  case (JObj ps)
  from JObj.prems(2) obtain m where
    m: "n = Suc m" "sum_list (map (\<lambda>p. 1 + descent (snd p)) ps) \<le> m"
    by (cases n) auto
  show ?case
  proof (cases ps)
    case Nil
    then show ?thesis by (simp add: m skip_ws_def is_ws_def)
  next
    case (Cons q qs)
    have ih: "\<And>p n rest. p \<in> set ps \<Longrightarrow> descent (snd p) \<le> n \<Longrightarrow> delimited rest \<Longrightarrow>
        parse_value n (JSON_stringify (snd p) @ rest) = Some (snd p, rest)"
    proof -
      fix p :: "string \<times> jsval" and n rest
      assume p: "p \<in> set ps" and n: "descent (snd p) \<le> n" and r: "delimited rest"
      have "snd p \<in> Basic_BNFs.snds p" by (cases p) simp
      moreover have "exact_json (snd p)" using JObj.prems(1) p by simp
      ultimately show "parse_value n (JSON_stringify (snd p) @ rest) = Some (snd p, rest)"
        using JObj.IH [OF p _ _ n r] by blast
    qed
    let ?body = "join '','' (map (\<lambda>(k, v). quote k @ '':'' @ JSON_stringify v) ps) @ CHR ''}'' # rest"
    have mem: "parse_members m ?body = Some (ps, rest)"
      by (rule parse_members_join [OF ih _ m(2)]) (simp_all add: Cons)
    obtain k v where q: "q = (k, v)" by (cases q)
    have "\<exists>t. ?body = CHR 0x22 # t" using Cons q by (cases qs) (simp_all add: quote_def)
    then obtain t where t: "?body = CHR 0x22 # t" by blast
    have sk: "skip_ws ?body = CHR 0x22 # t" unfolding t by (simp add: skip_ws_def is_ws_def)
    have d: "distinct (map fst ps)" using JObj.prems(1) by simp
    have "parse_value (Suc m) (CHR ''{'' # ?body) = Some (JObj ps, rest)"
      using mem sk make_object_distinct [OF d] by (simp add: skip_ws_def is_ws_def)
    then show ?thesis by (simp add: m)
  qed
qed

lemma length_join:
  "length (join sep xs) = sum_list (map length xs) + length sep * (length xs - 1)"
  by (induction sep xs rule: join.induct) simp_all

lemma stringify_nonempty: "exact_json v \<Longrightarrow> 1 \<le> length (JSON_stringify v)"
  using value_head [of v] by auto

lemma descent_sum:
  "(\<And>x. x \<in> set xs \<Longrightarrow> descent (f x) \<le> 2 * g x) \<Longrightarrow>
   sum_list (map (\<lambda>x. 1 + descent (f x)) xs) \<le> length xs + 2 * sum_list (map g xs)"
proof (induction xs)
  case Nil
  show ?case by simp
next
  case (Cons a xs)
  have a: "descent (f a) \<le> 2 * g a" using Cons.prems by simp
  have "sum_list (map (\<lambda>x. 1 + descent (f x)) xs) \<le> length xs + 2 * sum_list (map g xs)"
    by (rule Cons.IH) (simp add: Cons.prems)
  with a show ?case by simp
qed

lemma descent_le_length: "exact_json v \<Longrightarrow> descent v \<le> 2 * length (JSON_stringify v)"
proof (induction v)
  case (JArr vs)
  have "sum_list (map (\<lambda>v. 1 + descent (id v)) vs) \<le>
      length vs + 2 * sum_list (map (\<lambda>v. length (JSON_stringify v)) vs)"
    by (rule descent_sum) (use JArr in simp)
  then show ?case
    by (cases vs) (simp_all add: length_join comp_def)
next
  case (JObj ps)
  have "sum_list (map (\<lambda>p. 1 + descent (snd p)) ps) \<le>
      length ps + 2 * sum_list (map (\<lambda>p. length (JSON_stringify (snd p))) ps)"
  proof (rule descent_sum)
    fix p assume p: "p \<in> set ps"
    have "snd p \<in> Basic_BNFs.snds p" by (cases p) simp
    moreover have "exact_json (snd p)" using JObj.prems p by simp
    ultimately show "descent (snd p) \<le> 2 * length (JSON_stringify (snd p))"
      using JObj.IH [OF p] by blast
  qed
  moreover have "sum_list (map (\<lambda>p. length (JSON_stringify (snd p))) ps) \<le>
      sum_list (map (\<lambda>p. length (case p of (k, v) \<Rightarrow> quote k @ '':'' @ JSON_stringify v)) ps)"
    by (rule sum_list_mono) (auto split: prod.splits)
  ultimately show ?case
    by (cases ps) (simp_all add: length_join comp_def)
next
  case (JNum x)
  then show ?case using stringify_nonempty [of "JNum x"] by simp
qed (simp_all add: quote_def)

lemma JSON_roundtrip: "exact_json v \<Longrightarrow> JSON_parse (JSON_stringify v) = Some v"
proof -
  assume e: "exact_json v"
  have "descent v \<le> 2 * length (JSON_stringify v) + 2"
    using descent_le_length [OF e] by simp
  from parse_value_roundtrip [OF e this, of "[]"]
  show ?thesis by (simp add: JSON_parse_def delimited_def skip_ws_def)
qed

subsection \<open>The record as a value and as text\<close>

lemma asMode_modeString [simp]: "asMode (JStr (modeString m)) = Some m"
  by (cases m) (simp_all add: asMode_def modeString_def)

lemma asComponent_componentString [simp]: "asComponent (JStr (componentString c)) = Some c"
  by (cases c) (simp_all add: asComponent_def componentString_def)

lemma asDifficulty_difficultyString [simp]: "asDifficulty (JStr (difficultyString d)) = Some d"
  by (cases d) (simp_all add: asDifficulty_def difficultyString_def)

lemma asInt_of_int [simp]: "asInt (JNum (of_int i)) = Some i"
  by (simp add: asInt_def)

lemma asAttempt_attemptToJS: "asAttempt (attemptToJS a) = Some a"
  by (cases "att_focusComponent a"; cases "att_difficulty a"; cases "att_rating a")
    (simp_all add: asAttempt_def attemptToJS_def optional_prop_def nullable_prop_def required_def
      optional_def nullable_field_def asString_def asBool_def)

lemma those_map_Some: "(\<And>x. f (g x) = Some x) \<Longrightarrow> those (map (f \<circ> g) xs) = Some xs"
  by (induction xs) simp_all

lemma asProgressData_progressToJS: "asProgressData (progressToJS d) = Some d"
proof -
  have a: "those (map (asAttempt \<circ> attemptToJS) (attempts d)) = Some (attempts d)"
    by (rule those_map_Some) (rule asAttempt_attemptToJS)
  have c: "those (map (asString \<circ> JStr) (completedScenarios d)) = Some (completedScenarios d)"
    by (rule those_map_Some) (simp add: asString_def)
  show ?thesis
    by (cases "lastPracticeDate d")
      (simp_all add: asProgressData_def progressToJS_def required_def asArray_def a c
        asBool_def asDate_def)
qed

lemma exact_attemptToJS: "exact_json (attemptToJS a)"
  by (cases "att_focusComponent a"; cases "att_difficulty a"; cases "att_rating a")
    (simp_all add: attemptToJS_def optional_prop_def nullable_prop_def)

lemma exact_progressToJS: "exact_json (progressToJS d)"
  by (cases "lastPracticeDate d") (simp_all add: progressToJS_def exact_attemptToJS)

lemma parse_serialize: "JSON_parse (serialize d) = Some (progressToJS d)"
  unfolding serialize_def by (rule JSON_roundtrip) (rule exact_progressToJS)

section \<open>Theorems: export and import\<close>

text \<open>
  C3. For every record \<open>R\<close> of type \<open>ProgressData\<close>, importing the text \<open>serialize R\<close>
  (what \<open>exportData\<close> and \<open>saveData\<close> write for \<open>R\<close>) and exporting again gives the same
  text back; the tracker's value after the import, read at the declared type, is \<open>R\<close>
  (the same flag, the same attempts in the same order, the same completed scenarios,
  streak and last practice date), and so is the exported text when it is parsed.
\<close>

theorem export_import_roundtrip:
  "exportData (importData (serialize R) t) = serialize R \<and>
   asProgressData (js_data (importData (serialize R) t)) = Some R \<and>
   (JSON_parse (exportData (importData (serialize R) t)) \<bind> asProgressData) = Some R"
proof -
  have d: "js_data (importData (serialize R) t) = progressToJS R"
    by (simp add: importData_def parse_serialize)
  then have e: "exportData (importData (serialize R) t) = serialize R"
    by (simp add: exportData_def serialize_def)
  show ?thesis
    unfolding e by (simp add: d parse_serialize asProgressData_progressToJS)
qed

text \<open>
  C4, as the program has it. When the text is not valid JSON, \<open>importData\<close> leaves the
  tracker as it was, the value of \<open>data\<close> and the stored text included, and returns
  normally. A text that is valid JSON is imported whether or not it is a record.
\<close>

theorem importData_invalid_json:
  "JSON_parse json = None \<Longrightarrow>
   importData json t = t \<and> js_data (importData json t) = js_data t \<and>
   js_localStorage (importData json t) = js_localStorage t"
  by (simp add: importData_def)

theorem importData_invalid_json_witness:
  "JSON_parse ''{enabled: true'' = None \<and>
   importData ''{enabled: true'' (createProgressTracker declaredArrays None) =
     createProgressTracker declaredArrays None"
proof -
  have n: "JSON_parse ''{enabled: true'' = None" by code_simp
  from importData_invalid_json [OF n, of "createProgressTracker declaredArrays None"] n
  show ?thesis by simp
qed

text \<open>The claim as stated fails for the text \<open>42\<close>: it is not a serialized record, and
  the import replaces the record by the number.\<close>

theorem importData_not_a_record_counterexample:
  "parseProgressData ''42'' = None \<and>
   js_data (createProgressTracker declaredArrays None) =
     progressToJS (DEFAULT_PROGRESS_DATA declaredArrays) \<and>
   js_data (importData ''42'' (createProgressTracker declaredArrays None)) = JNum 42 \<and>
   importData ''42'' (createProgressTracker declaredArrays None) \<noteq>
     createProgressTracker declaredArrays None"
proof -
  have p: "JSON_parse ''42'' = Some (JNum 42)" by code_simp
  have a: "parseProgressData ''42'' = None"
    by (simp add: parseProgressData_def p asProgressData_def)
  have b: "js_data (createProgressTracker declaredArrays None) =
     progressToJS (DEFAULT_PROGRESS_DATA declaredArrays)"
    by (simp add: createProgressTracker_def loadData_def)
  have c: "js_data (importData ''42'' (createProgressTracker declaredArrays None)) = JNum 42"
    by (simp add: importData_def p)
  have "progressToJS (DEFAULT_PROGRESS_DATA declaredArrays) \<noteq> JNum 42"
    by (simp add: progressToJS_def)
  with b c have d: "importData ''42'' (createProgressTracker declaredArrays None) \<noteq>
     createProgressTracker declaredArrays None"
    by metis
  from a b c d show ?thesis by blast
qed

text \<open>
  C10. \<open>importData\<close> replaces \<open>data\<close> by whatever \<open>JSON.parse\<close> returns and stores its
  text under the storage key, with no check of the value's shape; the tracker changes
  only if the text parsed. \<open>null\<close> and \<open>42\<close> are valid JSON and are not records.
\<close>

theorem importData_any_json:
  "(JSON_parse json = Some v \<longrightarrow>
      js_data (importData json t) = v \<and>
      js_localStorage (importData json t) =
        setItem STORAGE_KEY (JSON_stringify v) (js_localStorage t)) \<and>
   (importData json t \<noteq> t \<longrightarrow> JSON_parse json \<noteq> None) \<and>
   JSON_parse ''null'' = Some JNull \<and> asProgressData JNull = None \<and>
   JSON_parse ''42'' = Some (JNum 42) \<and> asProgressData (JNum 42) = None"
proof -
  have 1: "JSON_parse json = Some v \<longrightarrow>
      js_data (importData json t) = v \<and>
      js_localStorage (importData json t) =
        setItem STORAGE_KEY (JSON_stringify v) (js_localStorage t)"
    by (simp add: importData_def)
  have 2: "importData json t \<noteq> t \<longrightarrow> JSON_parse json \<noteq> None"
    by (cases "JSON_parse json") (simp_all add: importData_def)
  have 3: "JSON_parse ''null'' = Some JNull" "JSON_parse ''42'' = Some (JNum 42)"
    by code_simp+
  have 4: "asProgressData JNull = None" "asProgressData (JNum 42) = None"
    by (simp_all add: asProgressData_def)
  from 1 2 3 4 show ?thesis by blast
qed

theorem importData_any_json_witness:
  "js_data (importData ''null'' (createProgressTracker declaredArrays (Some Map.empty))) = JNull \<and>
   js_localStorage (importData ''null'' (createProgressTracker declaredArrays (Some Map.empty))) =
     Some (Map.empty(''nvc_progress'' \<mapsto> ''null''))"
proof -
  have p: "JSON_parse ''null'' = Some JNull" by code_simp
  have s: "js_localStorage (createProgressTracker declaredArrays (Some Map.empty)) = Some Map.empty"
    by (simp add: createProgressTracker_def)
  from importData_any_json [of "''null''" JNull "createProgressTracker declaredArrays (Some Map.empty)"] p s
  show ?thesis by (simp add: setItem_def STORAGE_KEY_def)
qed

section \<open>Theorems: double arithmetic\<close>

text \<open>Powers of two, and the binade of a positive rational.\<close>

lemma pow2_powi: "pow2 k = 2 powi k"
  by (simp add: pow2_def power_int_def inverse_eq_divide power_one_over)

lemma pow2_pos [simp]: "0 < pow2 k"
  by (simp add: pow2_powi)

lemma pow2_add: "pow2 (a + b) = pow2 a * pow2 b"
  by (simp add: pow2_powi power_int_add)

lemma pow2_diff: "pow2 (a - b) = pow2 a / pow2 b"
  by (simp add: pow2_powi power_int_diff)

lemma pow2_mono: "a \<le> b \<Longrightarrow> pow2 a \<le> pow2 b"
  by (simp add: pow2_powi power_int_increasing)

lemma pow2_strict_mono: "a < b \<Longrightarrow> pow2 a < pow2 b"
  by (simp add: pow2_powi power_int_strict_increasing)

lemma pow2_nat: "pow2 (int n) = 2 ^ n"
  by (simp add: pow2_def)

lemma bit_length_bounds:
  "0 < n \<Longrightarrow> 1 \<le> bit_length n \<and> 2 ^ nat (bit_length n - 1) \<le> n \<and> n < 2 ^ nat (bit_length n)"
proof (induction n rule: bit_length.induct)
  case (1 n)
  show ?case
  proof (cases "n = 1")
    case True
    have "bit_length 1 = 1" by (simp add: bit_length.simps [of 1] bit_length.simps [of 0])
    with True show ?thesis by simp
  next
    case False
    with "1.prems" have h: "0 < n div 2" by simp
    from "1.IH" [OF _ h] "1.prems"
    have ih: "1 \<le> bit_length (n div 2)"
      "2 ^ nat (bit_length (n div 2) - 1) \<le> n div 2"
      "n div 2 < 2 ^ nat (bit_length (n div 2))"
      by auto
    have b: "bit_length n = 1 + bit_length (n div 2)"
      using "1.prems" by (simp add: bit_length.simps [of n])
    define k where "k = nat (bit_length (n div 2) - 1)"
    have k: "nat (bit_length (n div 2)) = Suc k" "nat (bit_length n - 1) = Suc k"
      "nat (bit_length n) = Suc (Suc k)"
      using ih(1) b by (simp_all add: k_def)
    have lo: "(2::int) ^ k \<le> n div 2" using ih(2) by (simp add: k_def)
    have hi: "n div 2 < 2 ^ Suc k" using ih(3) by (simp add: k(1))
    have "2 * (n div 2) \<le> n" "n < 2 * (n div 2) + 2" by presburger+
    with lo hi have r: "2 ^ Suc k \<le> n" "n < 2 ^ Suc (Suc k)" by simp_all
    have "1 \<le> bit_length n" using b ih(1) by simp
    moreover have "2 ^ nat (bit_length n - 1) \<le> n" unfolding k(2) by (rule r(1))
    moreover have "n < 2 ^ nat (bit_length n)" unfolding k(3) by (rule r(2))
    ultimately show ?thesis by blast
  qed
qed

lemma binade_le: assumes "0 < x" shows "pow2 (binade x) \<le> x"
proof -
  obtain p q where pq: "quotient_of x = (p, q)" by (cases "quotient_of x")
  then have q: "0 < q" and x: "x = of_int p / of_int q"
    by (simp_all add: quotient_of_denom_pos quotient_of_div)
  with assms have p: "0 < p" by (simp add: zero_less_divide_iff)
  let ?b = "bit_length p - bit_length q"
  show ?thesis
  proof (cases "x < pow2 ?b")
    case False
    then show ?thesis by (simp add: binade_def pq)
  next
    case True
    from bit_length_bounds [OF p] have lp: "1 \<le> bit_length p" "2 ^ nat (bit_length p - 1) \<le> p" by auto
    from bit_length_bounds [OF q] have lq: "1 \<le> bit_length q" "q < 2 ^ nat (bit_length q)" by auto
    have 1: "pow2 (bit_length p - 1) \<le> of_int p"
    proof -
      have "(of_int (2 ^ nat (bit_length p - 1)) :: rat) \<le> of_int p" using lp(2) by (simp only: of_int_le_iff)
      moreover have "pow2 (bit_length p - 1) = 2 ^ nat (bit_length p - 1)"
        using lp(1) by (simp add: pow2_def)
      ultimately show ?thesis by simp
    qed
    have 2: "of_int q \<le> pow2 (bit_length q)"
    proof -
      have "(of_int q :: rat) < of_int (2 ^ nat (bit_length q))" using lq(2) by (simp only: of_int_less_iff)
      moreover have "pow2 (bit_length q) = 2 ^ nat (bit_length q)"
        using lq(1) by (simp add: pow2_def)
      ultimately show ?thesis by simp
    qed
    have "pow2 (?b - 1) = pow2 (bit_length p - 1) / pow2 (bit_length q)"
      using pow2_diff [of "bit_length p - 1" "bit_length q"] by (simp add: algebra_simps)
    also have "\<dots> \<le> of_int p / pow2 (bit_length q)"
      using 1 by (intro divide_right_mono) (simp_all add: less_imp_le)
    also have "\<dots> \<le> of_int p / of_int q"
      using 2 p q by (simp add: frac_le)
    finally have "pow2 (?b - 1) \<le> x" by (simp add: x)
    with True show ?thesis by (simp add: binade_def pq)
  qed
qed

text \<open>Rounding to a double: the relative error is at most \<open>2 ^ - 53\<close> in the normal
  range, and a non-negative integer below \<open>2 ^ 53\<close> is a double.\<close>

lemma round_even_error: "\<bar>of_int (round_even m) - m\<bar> \<le> 1 / 2"
proof -
  have "of_int \<lfloor>m\<rfloor> \<le> m" "m < of_int \<lfloor>m\<rfloor> + 1" by linarith+
  then show ?thesis
    unfolding round_even_def Let_def by (auto simp: abs_le_iff) 
qed

lemma round_even_int [simp]: "round_even (of_int k) = k"
  by (simp add: round_even_def)

lemma fl_error:
  assumes "pow2 (- 1022) \<le> x"
  shows "\<bar>fl x - x\<bar> \<le> x * (1 / 2 ^ 53)"
proof -
  have x: "0 < x" using assms pow2_pos [of "- 1022"] by linarith
  define e where "e = max (binade x) (- 1022)"
  define u where "u = pow2 (e - 52)"
  have u: "0 < u" by (simp add: u_def)
  have e: "pow2 e \<le> x"
    using binade_le [OF x] assms by (simp add: e_def max_def)
  have f: "fl x = of_int (round_even (x / u)) * u"
    using x by (simp add: fl_def Let_def e_def u_def)
  have "fl x - x = (of_int (round_even (x / u)) - x / u) * u"
    using u by (simp add: f field_simps)
  then have "\<bar>fl x - x\<bar> = \<bar>of_int (round_even (x / u)) - x / u\<bar> * u"
    using u by (simp add: abs_mult)
  also have "\<dots> \<le> 1 / 2 * u"
    using round_even_error [of "x / u"] u by (simp add: mult_right_mono)
  also have "1 / 2 * u = pow2 e * (1 / 2 ^ 53)"
    using pow2_diff [of e 53] by (simp add: u_def pow2_def [of 53] pow2_diff [of e 52] pow2_def [of 52])
  also have "\<dots> \<le> x * (1 / 2 ^ 53)"
    using e by (simp add: mult_right_mono)
  finally show ?thesis .
qed

lemma fl_int_exact:
  assumes "0 \<le> z" "z < 2 ^ 53"
  shows "fl (of_int z) = of_int z"
proof (cases "z = 0")
  case True
  then show ?thesis by (simp add: fl_def)
next
  case False
  with assms have z: "0 < z" by simp
  let ?x = "of_int z :: rat"
  have x: "0 < ?x" using z by simp
  define e where "e = max (binade ?x) (- 1022)"
  have "pow2 (binade ?x) \<le> ?x" by (rule binade_le [OF x])
  also have "?x < of_int (2 ^ 53)" using assms(2) by (simp only: of_int_less_iff)
  also have "(of_int (2 ^ 53) :: rat) = pow2 53" by (simp add: pow2_def)
  finally have "binade ?x < 53"
    using pow2_mono [of 53 "binade ?x"] by (cases "binade ?x < 53") auto
  then have e: "e \<le> 52" by (simp add: e_def)
  define n where "n = nat (52 - e)"
  have u: "pow2 (e - 52) = 1 / 2 ^ n"
  proof (cases "e = 52")
    case True then show ?thesis by (simp add: n_def pow2_def)
  next
    case False with e show ?thesis by (simp add: n_def pow2_def)
  qed
  have m: "?x / (1 / 2 ^ n) = of_int (z * 2 ^ n)" by simp
  have "fl ?x = of_int (round_even (?x / (1 / 2 ^ n))) * (1 / 2 ^ n)"
    using x by (simp add: fl_def Let_def e_def [symmetric] u del: of_int_mult of_int_power)
  also have "\<dots> = ?x" unfolding m round_even_int by simp
  finally show ?thesis .
qed

text \<open>
  A quotient of integers rounded to a double, scaled by an integer, rounded again and
  passed to \<open>Math.round\<close> is an integer at most one half away from the exact scaled
  quotient, as long as the numbers stay far below \<open>2 ^ 53\<close>.
\<close>

lemma pow2_tiny: "pow2 (- 1022) \<le> 1 / 2 ^ 40"
proof -
  have "pow2 (- 1022) \<le> pow2 (- 40)" by (rule pow2_mono) simp
  also have "pow2 (- 40) = 1 / 2 ^ 40" by (simp add: pow2_def)
  finally show ?thesis .
qed

lemma fl_zero [simp]: "fl 0 = 0"
  by (simp add: fl_def)

lemma round_to_grid:
  fixes P t :: int and y :: rat
  assumes t: "0 < t" and y: "\<bar>y - of_int P / of_int t\<bar> < 1 / (2 * of_int t)"
  shows "\<bar>of_int (Math_round y) - (of_int P :: rat) / of_int t\<bar> \<le> 1 / 2"
proof -
  define r where "r = Math_round y"
  define T where "T = (of_int t :: rat)"
  have T: "0 < T" using t by (simp add: T_def)
  have fl: "of_int r \<le> y + 1 / 2" "y + 1 / 2 < of_int r + 1"
    unfolding r_def Math_round_def by linarith+
  have "\<bar>y - of_int P / T\<bar> * T < 1 / (2 * T) * T"
    using y T by (intro mult_strict_right_mono) (simp_all add: T_def)
  moreover have "\<bar>y - of_int P / T\<bar> * T = \<bar>y * T - of_int P\<bar>"
  proof -
    have "(y - of_int P / T) * T = y * T - of_int P" using T by (simp add: field_simps)
    then show ?thesis using T by (metis abs_mult abs_of_pos)
  qed
  ultimately have Y: "\<bar>y * T - of_int P\<bar> < 1 / 2" using T by simp
  have a: "of_int r * T \<le> y * T + T / 2"
    using mult_right_mono [OF fl(1), of T] T by (simp add: algebra_simps)
  have b: "y * T + T / 2 < of_int r * T + T"
    using mult_strict_right_mono [OF fl(2) T] by (simp add: algebra_simps)
  define Rr where "Rr = of_int r * T"
  define Yy where "Yy = y * T"
  define Pq where "Pq = (of_int P :: rat)"
  have a': "Rr \<le> Yy + T / 2" and b': "Yy + T / 2 < Rr + T" and Y': "\<bar>Yy - Pq\<bar> < 1 / 2"
    using a b Y by (simp_all add: Rr_def Yy_def Pq_def)
  have c: "of_int (2 * (r * t - P)) = (2 * Rr - 2 * Pq)" "of_int (t + 1) = T + 1"
    "of_int (- t - 1) = - T - 1" "of_int t = T" "of_int (- t) = - T"
    by (simp_all add: Rr_def Pq_def T_def)
  have "(2 * Rr - 2 * Pq) < T + 1" using a' Y' by linarith
  then have "(of_int (2 * (r * t - P)) :: rat) < of_int (t + 1)" by (simp only: c)
  then have "2 * (r * t - P) < t + 1" by (simp only: of_int_less_iff)
  then have u: "2 * (r * t - P) \<le> t" by linarith
  have "- T - 1 < (2 * Rr - 2 * Pq)" using b' Y' by linarith
  then have "(of_int (- t - 1) :: rat) < of_int (2 * (r * t - P))" by (simp only: c)
  then have "- t - 1 < 2 * (r * t - P)" by (simp only: of_int_less_iff)
  then have l: "- t \<le> 2 * (r * t - P)" by linarith
  have "(of_int (2 * (r * t - P)) :: rat) \<le> of_int t" using u by (simp only: of_int_le_iff)
  then have u': "(2 * Rr - 2 * Pq) \<le> T" by (simp only: c)
  have "(of_int (- t) :: rat) \<le> of_int (2 * (r * t - P))" using l by (simp only: of_int_le_iff)
  then have l': "- T \<le> (2 * Rr - 2 * Pq)" by (simp only: c)
  have "\<bar>Rr - Pq\<bar> \<le> 1 / 2 * T" using u' l' by linarith
  then have "\<bar>of_int r * T - of_int P\<bar> \<le> 1 / 2 * T" by (simp add: Rr_def Pq_def)
  moreover have "\<bar>of_int r * T - of_int P\<bar> = \<bar>of_int r - of_int P / T\<bar> * T"
  proof -
    have "(of_int r - of_int P / T) * T = of_int r * T - of_int P" using T by (simp add: field_simps)
    then show ?thesis using T by (metis abs_mult abs_of_pos)
  qed
  ultimately have "\<bar>of_int r - of_int P / T\<bar> * T \<le> 1 / 2 * T" by simp
  then have "\<bar>of_int r - of_int P / T\<bar> \<le> 1 / 2" using T by simp
  then show ?thesis by (simp add: r_def T_def)
qed

lemma double_scaled_round:
  fixes a t si :: int
  assumes a: "0 \<le> a" and t: "0 < t" "t < 2 ^ 32" and si: "1 \<le> si"
    and small: "a * si < 2 ^ 50"
  shows "\<bar>of_int (Math_round (fl (fl (of_int a / of_int t) * of_int si)))
           - (of_int (a * si) :: rat) / of_int t\<bar> \<le> 1 / 2"
proof (cases "a = 0")
  case True
  have "\<lfloor>(1 :: rat) / 2\<rfloor> = 0" by (simp add: floor_eq_iff)
  with True show ?thesis by (simp add: Math_round_def)
next
  case False
  with a have a1: "1 \<le> a" by simp
  define T where "T = (of_int t :: rat)"
  define u where "u = (of_int a :: rat) / T"
  define s where "s = (of_int si :: rat)"
  define q where "q = fl u"
  define y where "y = fl (q * s)"
  define eps where "eps = (1 :: rat) / 2 ^ 53"
  have T: "0 < T" "T < 2 ^ 32"
  proof -
    show "0 < T" using t by (simp add: T_def)
    have "(of_int t :: rat) < of_int (2 ^ 32)" using t(2) by (simp only: of_int_less_iff)
    then show "T < 2 ^ 32" by (simp add: T_def)
  qed
  have s: "1 \<le> s" using si by (simp add: s_def)
  have A: "(1 :: rat) \<le> of_int a" using a1 by simp
  define c where "c = (1 :: rat) / 2 ^ 32"
  have c: "pow2 (- 1022) \<le> c / 2" "0 < c"
  proof -
    have "(1 :: rat) / 2 ^ 40 \<le> c / 2" by (simp add: c_def)
    with pow2_tiny show "pow2 (- 1022) \<le> c / 2" by (rule order_trans)
    show "0 < c" by (simp add: c_def)
  qed
  have eps: "0 < eps" "eps \<le> 1 / 2" "4 * eps = 1 / 2 ^ 51" by (simp_all add: eps_def)
  have ulo: "c \<le> u"
  proof -
    have "c \<le> 1 / T" unfolding c_def using T by (intro frac_le) simp_all
    also have "1 / T \<le> of_int a / T" using A T by (intro divide_right_mono) simp_all
    finally show ?thesis by (simp add: u_def)
  qed
  then have u0: "0 < u" using c(2) by linarith
  have "pow2 (- 1022) \<le> u" using c ulo by linarith
  then have qe: "\<bar>q - u\<bar> \<le> u * eps"
    unfolding q_def eps_def by (rule fl_error)
  have "u * eps \<le> u * (1 / 2)" using eps(2) u0 by (intro mult_left_mono) simp_all
  then have qlo: "c / 2 \<le> q" using qe ulo by linarith
  then have q0: "0 < q" using c(2) by linarith
  have "q * 1 \<le> q * s" using s q0 by (intro mult_left_mono) simp_all
  then have "pow2 (- 1022) \<le> q * s" using qlo c(1) by simp
  then have ye: "\<bar>y - q * s\<bar> \<le> q * s * eps"
    unfolding y_def eps_def by (rule fl_error)
  define v where "v = u * s"
  define w where "w = q * s"
  have s0: "0 \<le> s" using s by simp
  have "\<bar>q - u\<bar> * s \<le> u * eps * s" using qe s0 by (rule mult_right_mono)
  moreover have "\<bar>q - u\<bar> * s = \<bar>w - v\<bar>"
  proof -
    have "(q - u) * s = w - v" by (simp add: v_def w_def algebra_simps)
    then have "\<bar>w - v\<bar> = \<bar>q - u\<bar> * \<bar>s\<bar>" by (simp only: abs_mult [symmetric])
    then show ?thesis using s0 by simp
  qed
  moreover have "u * eps * s = v * eps" by (simp add: v_def)
  ultimately have wv: "\<bar>w - v\<bar> \<le> v * eps" by simp
  have yw: "\<bar>y - w\<bar> \<le> w * eps" using ye by (simp add: w_def)
  have v0: "0 < v" using u0 s by (simp add: v_def)
  define ve where "ve = v * eps"
  have ve0: "0 \<le> ve" using v0 eps(1) by (simp add: ve_def)
  have wv': "\<bar>w - v\<bar> \<le> ve" using wv by (simp only: ve_def)
  then have "w \<le> v + ve" by linarith
  then have "w * eps \<le> (v + ve) * eps" using eps(1) by (intro mult_right_mono) simp_all
  moreover have "ve * eps \<le> ve * 1" using ve0 eps(2) by (intro mult_left_mono) simp_all
  moreover have "(v + ve) * eps = ve + ve * eps" by (simp add: algebra_simps ve_def)
  ultimately have "w * eps \<le> 2 * ve" by linarith
  then have "\<bar>y - v\<bar> \<le> 3 * ve" using yw wv' by linarith
  also have "3 * ve \<le> 4 * ve" using ve0 by simp
  also have "4 * ve = v * (4 * eps)" by (simp add: ve_def)
  finally have yv: "\<bar>y - v\<bar> \<le> v * (1 / 2 ^ 51)" by (simp only: eps(3))
  define P where "P = a * si"
  have vP: "v = of_int P / T" by (simp add: v_def u_def s_def P_def)
  have "(of_int P :: rat) < of_int (2 ^ 50)"
    using small by (simp only: of_int_less_iff P_def)
  then have Pb: "(of_int P :: rat) * (1 / 2 ^ 51) < 1 / 2" by simp
  have "v * (1 / 2 ^ 51) = of_int P * (1 / 2 ^ 51) / T" by (simp add: vP)
  also have "\<dots> < 1 / 2 / T" using Pb T by (intro divide_strict_right_mono) simp_all
  finally have "\<bar>y - of_int P / T\<bar> < 1 / (2 * T)" using yv by (simp add: vP)
  then have "\<bar>of_int (Math_round y) - (of_int P :: rat) / of_int t\<bar> \<le> 1 / 2"
    unfolding T_def by (rule round_to_grid [OF t(1)])
  then show ?thesis
    by (simp add: y_def q_def u_def s_def T_def P_def)
qed

section \<open>Theorems: progress tracking\<close>

lemma data_push_attempt [simp]:
  "streakDays (data (push_attempt a t)) = streakDays (data t)"
  "lastPracticeDate (data (push_attempt a t)) = lastPracticeDate (data t)"
  "enabled (data (push_attempt a t)) = enabled (data t)"
  "completedScenarios (data (push_attempt a t)) = completedScenarios (data t)"
  "attempts (data (push_attempt a t)) = attempts (data t) @ [a]"
  "sharesDefault (push_attempt a t) = sharesDefault t"
  by (simp_all add: push_attempt_def Let_def)

lemma data_push_completed [simp]:
  "streakDays (data (push_completed s t)) = streakDays (data t)"
  "lastPracticeDate (data (push_completed s t)) = lastPracticeDate (data t)"
  "enabled (data (push_completed s t)) = enabled (data t)"
  "completedScenarios (data (push_completed s t)) = completedScenarios (data t) @ [s]"
  "attempts (data (push_completed s t)) = attempts (data t)"
  "sharesDefault (push_completed s t) = sharesDefault t"
  by (simp_all add: push_completed_def Let_def)

lemma data_saveData [simp]: "data (saveData t) = data t"
  "sharesDefault (saveData t) = sharesDefault t" "defaults (saveData t) = defaults t"
  by (simp_all add: saveData_def)

lemma updateStreak_arrays [simp]:
  "attempts (updateStreak h d) = attempts d"
  "completedScenarios (updateStreak h d) = completedScenarios d"
  "enabled (updateStreak h d) = enabled d"
  by (simp_all add: updateStreak_def Let_def split: option.splits)

lemma recordAttempt_data_streak:
  "enabled (data t) \<Longrightarrow>
   streakDays (data (recordAttempt h input t)) = streakDays (updateStreak h (data t)) \<and>
   lastPracticeDate (data (recordAttempt h input t)) = lastPracticeDate (updateStreak h (data t))"
  by (simp add: recordAttempt_def Let_def updateStreak_def split: option.splits)

text \<open>
  C1. The streak update of \<open>recordAttempt\<close> is not a function of \<open>lastPracticeDate\<close> and
  today's date, and a last practice date one day before today does not always increment
  the streak. \<open>getToday\<close> is the UTC date, while \<open>isYesterday\<close> steps one day back in
  local time before it prints the UTC date. In London on 2026-03-29, the day the clocks go
  forward, a record with a streak of 3 was last practised on 2026-03-28, and today is
  2026-03-29 both at 12:00 UTC and at 23:30 UTC. At 12:00 UTC \<open>isYesterday\<close> computes
  2026-03-28 and the streak becomes 4. At 23:30 UTC the local time is 00:30 on 30 March;
  one day back is 00:30 local time on 29 March, before the change, which is 00:30 UTC on
  29 March: \<open>isYesterday\<close> compares with 2026-03-29, today's own date, and the streak is
  reset to 1.
\<close>

theorem recordAttempt_streak_summer_time:
  "enabled (data (storedTracker marchData)) \<and>
   streakDays (data (storedTracker marchData)) = 3 \<and>
   lastPracticeDate (data (storedTracker marchData)) = Some ''2026-03-28'' \<and>
   getToday londonNoon = ''2026-03-29'' \<and>
   getToday londonNight = ''2026-03-29'' \<and>
   isoDate (dateNow londonNight - msPerDay) = ''2026-03-28'' \<and>
   isYesterday londonNoon ''2026-03-28'' \<and>
   \<not> isYesterday londonNight ''2026-03-28'' \<and>
   isYesterday londonNight ''2026-03-29'' \<and>
   streakDays (data (recordAttempt londonNoon (attemptInput ''s2'' practice True None)
     (storedTracker marchData))) = 4 \<and>
   lastPracticeDate (data (recordAttempt londonNoon (attemptInput ''s2'' practice True None)
     (storedTracker marchData))) = Some ''2026-03-29'' \<and>
   streakDays (data (recordAttempt londonNight (attemptInput ''s2'' practice True None)
     (storedTracker marchData))) = 1 \<and>
   lastPracticeDate (data (recordAttempt londonNight (attemptInput ''s2'' practice True None)
     (storedTracker marchData))) = Some ''2026-03-29''"
proof -
  have d: "data (storedTracker marchData) = marchData"
    by (simp add: storedTracker_def)
  have e: "enabled (data (storedTracker marchData))"
    "streakDays (data (storedTracker marchData)) = 3"
    "lastPracticeDate (data (storedTracker marchData)) = Some ''2026-03-28''"
    by (simp_all add: storedTracker_def marchData_def)
  have t: "getToday londonNoon = ''2026-03-29''" "getToday londonNight = ''2026-03-29''"
    "isoDate (dateNow londonNight - msPerDay) = ''2026-03-28''"
    by code_simp+
  have y: "isYesterday londonNoon ''2026-03-28''" "\<not> isYesterday londonNight ''2026-03-28''"
    "isYesterday londonNight ''2026-03-29''"
    by code_simp+
  have u: "streakDays (updateStreak londonNoon marchData) = 4"
    "lastPracticeDate (updateStreak londonNoon marchData) = Some ''2026-03-29''"
    "streakDays (updateStreak londonNight marchData) = 1"
    "lastPracticeDate (updateStreak londonNight marchData) = Some ''2026-03-29''"
    by code_simp+
  note r = recordAttempt_data_streak [OF e(1), unfolded d]
  from e t y u r [of londonNoon] r [of londonNight] show ?thesis by simp
qed

text \<open>
  C2. While tracking is disabled, \<open>recordAttempt\<close> returns before it touches anything:
  the whole tracker state is unchanged (the attempts and their number, the completed
  scenarios, the streak, the last practice date and the stored text). The model has no
  error result: no path of \<open>recordAttempt\<close> throws.
\<close>

theorem recordAttempt_disabled:
  assumes "\<not> enabled (data t)"
  shows "recordAttempt h input t = t \<and>
     getAttempts (recordAttempt h input t) = getAttempts t \<and>
     length (getAttempts (recordAttempt h input t)) = length (getAttempts t) \<and>
     getCompletedScenarios (recordAttempt h input t) = getCompletedScenarios t \<and>
     getStreak (recordAttempt h input t) = getStreak t \<and>
     lastPracticeDate (data (recordAttempt h input t)) = lastPracticeDate (data t) \<and>
     localStorage (recordAttempt h input t) = localStorage t"
  using assms by (simp add: recordAttempt_def)

theorem recordAttempt_disabled_witness:
  "\<not> enabled (data (freshTracker None)) \<and>
   recordAttempt exampleHost (attemptInput ''scenario-123'' practice True None) (freshTracker None)
     = freshTracker None \<and>
   length (getAttempts (recordAttempt exampleHost (attemptInput ''scenario-123'' practice True None)
     (freshTracker None))) = 0"
proof -
  have d: "\<not> enabled (data (freshTracker None))"
    by (simp add: freshTracker_def DEFAULT_PROGRESS_DATA_def)
  have z: "length (getAttempts (freshTracker None)) = 0"
    by (simp add: freshTracker_def DEFAULT_PROGRESS_DATA_def getAttempts_def declaredArrays_def)
  show ?thesis
    using recordAttempt_disabled [OF d, of exampleHost "attemptInput ''scenario-123'' practice True None"] d z
    by simp
qed

lemma tenth:
  fixes r x :: rat
  shows "\<bar>r - x * 10\<bar> \<le> 1 / 2 \<Longrightarrow> \<bar>r / 10 - x\<bar> \<le> 1 / 20"
  by linarith

lemma rated_sum:
  "sum_list (map rating_or_zero (filter (\<lambda>a. att_rating a \<noteq> Undefined) xs)) =
   sum_list (map rating_or_zero xs)"
  by (induction xs) (simp_all add: rating_or_zero_def)

lemma rated_foldl:
  assumes "\<forall>a \<in> set xs. 0 \<le> rating_or_zero a" and "0 \<le> z"
    and "z + sum_list (map rating_or_zero xs) < 2 ^ 53"
  shows "foldl (\<lambda>sum a. fl (sum + of_int (rating_or_zero a))) (of_int z) xs =
         of_int (z + sum_list (map rating_or_zero xs))"
  using assms
proof (induction xs arbitrary: z)
  case Nil
  then show ?case by simp
next
  case (Cons a xs)
  have r: "0 \<le> rating_or_zero a" using Cons.prems(1) by simp
  have s: "0 \<le> sum_list (map rating_or_zero xs)"
    using Cons.prems(1) by (intro sum_list_nonneg) auto
  have z': "0 \<le> z + rating_or_zero a" using r Cons.prems(2) by simp
  have b: "z + rating_or_zero a < 2 ^ 53" using Cons.prems(3) s by simp
  have "fl (of_int z + of_int (rating_or_zero a)) = fl (of_int (z + rating_or_zero a))"
    by simp
  also have "\<dots> = of_int (z + rating_or_zero a)" using z' b by (rule fl_int_exact)
  finally have f: "fl (of_int z + of_int (rating_or_zero a)) = of_int (z + rating_or_zero a)" .
  have "foldl (\<lambda>sum a. fl (sum + of_int (rating_or_zero a))) (of_int (z + rating_or_zero a)) xs =
        of_int (z + rating_or_zero a + sum_list (map rating_or_zero xs))"
  proof (rule Cons.IH)
    show "\<forall>a \<in> set xs. 0 \<le> rating_or_zero a" using Cons.prems(1) by simp
    show "0 \<le> z + rating_or_zero a" by (rule z')
    show "z + rating_or_zero a + sum_list (map rating_or_zero xs) < 2 ^ 53"
      using Cons.prems(3) by (simp add: algebra_simps)
  qed
  then show ?case by (simp add: f algebra_simps)
qed

lemma getStats_stored:
  "getStats (storedTracker d) =
   getStats \<lparr>data = d, sharesDefault = False, defaults = declaredArrays, localStorage = None\<rparr>"
  by (simp add: getStats_def storedTracker_def)

text \<open>
  C7, as the program has it, in double arithmetic. \<open>getStats\<close> counts all attempts and
  the completed ones. With fewer than \<open>2 ^ 32\<close> attempts (the bound of a JavaScript
  array), \<open>completionRate\<close> is 0 without attempts, and otherwise an integer at most one
  half away from \<open>completed / total * 100\<close>. \<open>averageRating\<close> is 0 when the rating of
  every attempt is \<open>undefined\<close>. Otherwise, when the ratings are not negative and their
  sum is below \<open>2 ^ 46\<close>, it is the double nearest to a number \<open>k / 10\<close> with one
  decimal place that is at most one twentieth away from the mean of the ratings that are
  not \<open>undefined\<close>, a rating of \<open>null\<close> counted as 0.
\<close>

theorem getStats_rates_binary64:
  assumes len: "int (length (attempts (data t))) < 2 ^ 32"
  shows
  "totalAttempts (getStats t) = length (attempts (data t)) \<and>
   completedAttempts (getStats t) = length (filter att_completed (attempts (data t))) \<and>
   (totalAttempts (getStats t) = 0 \<longrightarrow> completionRate (getStats t) = 0) \<and>
   (totalAttempts (getStats t) \<noteq> 0 \<longrightarrow>
      \<bar>of_int (completionRate (getStats t)) -
         of_nat (completedAttempts (getStats t)) / of_nat (totalAttempts (getStats t)) * 100\<bar>
        \<le> 1 / (2::rat)) \<and>
   (filter (\<lambda>a. att_rating a \<noteq> Undefined) (attempts (data t)) = [] \<longrightarrow>
      averageRating (getStats t) = 0) \<and>
   (filter (\<lambda>a. att_rating a \<noteq> Undefined) (attempts (data t)) \<noteq> [] \<and>
    (\<forall>a \<in> set (attempts (data t)). 0 \<le> rating_or_zero a) \<and>
    sum_list (map rating_or_zero (attempts (data t))) < 2 ^ 46 \<longrightarrow>
      (\<exists>k::int.
         averageRating (getStats t) = fl (of_int k / 10) \<and>
         \<bar>of_int k / 10 -
            of_int (sum_list (map rating_or_zero
              (filter (\<lambda>a. att_rating a \<noteq> Undefined) (attempts (data t))))) /
            of_nat (length (filter (\<lambda>a. att_rating a \<noteq> Undefined) (attempts (data t))))\<bar>
           \<le> 1 / (20::rat)))"
proof -
  define atts where "atts = attempts (data t)"
  define rated where "rated = filter (\<lambda>a. att_rating a \<noteq> Undefined) atts"
  define c where "c = length (filter att_completed atts)"
  define n where "n = length atts"
  define m where "m = length rated"
  define s where "s = sum_list (map rating_or_zero rated)"
  have tot: "totalAttempts (getStats t) = n"
    and com: "completedAttempts (getStats t) = c"
    by (simp_all add: getStats_def Let_def atts_def c_def n_def)
  have rate0: "completionRate (getStats t) =
      (if n > 0 then Math_round (fl (fl (of_nat c / of_nat n) * 100)) else 0)"
    by (simp add: getStats_def Let_def atts_def c_def n_def)
  have avg0: "averageRating (getStats t) =
      (if m > 0
       then fl (of_int (Math_round
              (fl (fl (foldl (\<lambda>sum a. fl (sum + of_int (rating_or_zero a))) 0 rated
                       / of_nat m) * 10))) / 10)
       else 0)"
    by (simp add: getStats_def Let_def atts_def rated_def m_def)
  have nb: "int n < 2 ^ 32" using len by (simp add: n_def atts_def)
  have cn: "c \<le> n" by (simp add: c_def n_def)
  have mn: "m \<le> n" by (simp add: m_def n_def rated_def)
  have c1: "totalAttempts (getStats t) = 0 \<longrightarrow> completionRate (getStats t) = 0"
    using rate0 tot by simp
  have c2: "totalAttempts (getStats t) \<noteq> 0 \<longrightarrow>
      \<bar>of_int (completionRate (getStats t)) -
         of_nat (completedAttempts (getStats t)) / of_nat (totalAttempts (getStats t)) * 100\<bar>
        \<le> 1 / (2::rat)"
  proof
    assume "totalAttempts (getStats t) \<noteq> 0"
    then have n0: "0 < n" using tot by simp
    have small: "int c * 100 < 2 ^ 50"
    proof -
      have "int c * 100 \<le> int n * 100" using cn by simp
      also have "\<dots> < 2 ^ 32 * 100" using nb by simp
      also have "\<dots> < (2::int) ^ 50" by simp
      finally show ?thesis .
    qed
    have "\<bar>of_int (Math_round (fl (fl (of_int (int c) / of_int (int n)) * of_int 100)))
           - (of_int (int c * 100) :: rat) / of_int (int n)\<bar> \<le> 1 / 2"
      using n0 nb small by (intro double_scaled_round) simp_all
    then have "\<bar>of_int (Math_round (fl (fl (of_nat c / of_nat n) * 100)))
           - (of_nat c :: rat) / of_nat n * 100\<bar> \<le> 1 / 2"
      by simp
    then show "\<bar>of_int (completionRate (getStats t)) -
         of_nat (completedAttempts (getStats t)) / of_nat (totalAttempts (getStats t)) * 100\<bar>
        \<le> 1 / (2::rat)"
      using n0 by (simp add: rate0 tot com)
  qed
  have c3: "rated = [] \<longrightarrow> averageRating (getStats t) = 0"
    using avg0 by (simp add: m_def)
  have c4: "rated \<noteq> [] \<and> (\<forall>a \<in> set atts. 0 \<le> rating_or_zero a) \<and>
      sum_list (map rating_or_zero atts) < 2 ^ 46 \<longrightarrow>
      (\<exists>k::int. averageRating (getStats t) = fl (of_int k / 10) \<and>
         \<bar>of_int k / 10 - of_int s / of_nat m\<bar> \<le> 1 / (20::rat))"
  proof
    assume a: "rated \<noteq> [] \<and> (\<forall>a \<in> set atts. 0 \<le> rating_or_zero a) \<and>
      sum_list (map rating_or_zero atts) < 2 ^ 46"
    then have m0: "0 < m" by (simp add: m_def)
    have nonneg: "\<forall>a \<in> set rated. 0 \<le> rating_or_zero a" using a by (simp add: rated_def)
    have s46: "s < 2 ^ 46" using a by (simp add: s_def rated_def rated_sum)
    have s0: "0 \<le> s" unfolding s_def using nonneg by (intro sum_list_nonneg) auto
    have "foldl (\<lambda>sum a. fl (sum + of_int (rating_or_zero a))) (of_int 0) rated =
          of_int (0 + sum_list (map rating_or_zero rated))"
      using nonneg s46 by (intro rated_foldl) (simp_all add: s_def)
    then have sum: "foldl (\<lambda>sum a. fl (sum + of_int (rating_or_zero a))) 0 rated = of_int s"
      by (simp add: s_def)
    define k where "k = Math_round (fl (fl (of_int s / of_nat m) * 10))"
    have avg: "averageRating (getStats t) = fl (of_int k / 10)"
      using m0 by (simp add: avg0 sum k_def)
    have mb: "int m < 2 ^ 32" using mn nb by linarith
    have small: "s * 10 < 2 ^ 50" using s46 by simp
    have "\<bar>of_int (Math_round (fl (fl (of_int s / of_int (int m)) * of_int 10)))
           - (of_int (s * 10) :: rat) / of_int (int m)\<bar> \<le> 1 / 2"
      using s0 m0 mb small by (intro double_scaled_round) simp_all
    then have "\<bar>of_int k - (of_int s :: rat) / of_nat m * 10\<bar> \<le> 1 / 2"
      by (simp add: k_def)
    then have "\<bar>of_int k / 10 - (of_int s :: rat) / of_nat m\<bar> \<le> 1 / 20"
      by (rule tenth)
    with avg show "\<exists>k::int. averageRating (getStats t) = fl (of_int k / 10) \<and>
         \<bar>of_int k / 10 - of_int s / of_nat m\<bar> \<le> 1 / (20::rat)"
      by blast
  qed
  from tot com c1 c2 c3 c4 show ?thesis
    unfolding n_def c_def m_def s_def rated_def atts_def by blast
qed

theorem getStats_rates_binary64_witness:
  "int (length (attempts (data completionExample))) < 2 ^ 32 \<and>
   totalAttempts (getStats completionExample) = 4 \<and>
   completedAttempts (getStats completionExample) = 3 \<and>
   completionRate (getStats completionExample) = 75 \<and>
   presentRatings (attempts (data ratingExample)) = [4, 5, 3] \<and>
   sum_list (map rating_or_zero (attempts (data ratingExample))) < 2 ^ 46 \<and>
   averageRating (getStats ratingExample) = 4 \<and>
   totalAttempts (getStats fortyExample) = 40 \<and>
   completedAttempts (getStats fortyExample) = 23 \<and>
   completionRate (getStats fortyExample) = 57 \<and>
   \<bar>of_int (completionRate (getStats fortyExample)) - 23 / 40 * 100\<bar> \<le> 1 / (2::rat) \<and>
   totalAttempts (getStats (freshTracker None)) = 0 \<and>
   completionRate (getStats (freshTracker None)) = 0 \<and>
   averageRating (getStats (freshTracker None)) = 0"
proof -
  have l: "length (attempts (data completionExample)) = 4"
    "length (filter att_completed (attempts (data completionExample))) = 3"
    by code_simp+
  then have lb: "int (length (attempts (data completionExample))) < 2 ^ 32" by simp
  have r: "completionRate (getStats completionExample) = 75"
    by code_simp
  from getStats_rates_binary64 [OF lb] l
  have a: "totalAttempts (getStats completionExample) = 4"
    "completedAttempts (getStats completionExample) = 3"
    by simp_all
  have b: "presentRatings (attempts (data ratingExample)) = [4, 5, 3]"
    "sum_list (map rating_or_zero (attempts (data ratingExample))) = 12"
    by code_simp+
  have c: "averageRating (getStats ratingExample) = 4"
    by code_simp
  have fl: "length (attempts (data fortyExample)) = 40"
    "length (filter att_completed (attempts (data fortyExample))) = 23"
    by (simp_all add: fortyExample_def storedTracker_def attemptsData_def storedAttempt_def)
  then have fb: "int (length (attempts (data fortyExample))) < 2 ^ 32" by simp
  from getStats_rates_binary64 [OF fb] fl
  have f: "totalAttempts (getStats fortyExample) = 40"
    "completedAttempts (getStats fortyExample) = 23"
    by simp_all
  from getStats_rates_binary64 [OF fb]
  have "totalAttempts (getStats fortyExample) \<noteq> 0 \<longrightarrow>
      \<bar>of_int (completionRate (getStats fortyExample)) -
         of_nat (completedAttempts (getStats fortyExample)) /
         of_nat (totalAttempts (getStats fortyExample)) * 100\<bar> \<le> 1 / (2::rat)"
    by blast
  then have h: "\<bar>of_int (completionRate (getStats fortyExample)) - 23 / 40 * 100\<bar> \<le> 1 / (2::rat)"
    unfolding f by simp
  have g: "completionRate (getStats fortyExample) = 57"
    unfolding fortyExample_def getStats_stored by code_simp
  have d: "attempts (data (freshTracker None)) = []"
    by (simp add: freshTracker_def DEFAULT_PROGRESS_DATA_def declaredArrays_def)
  then have db: "int (length (attempts (data (freshTracker None)))) < 2 ^ 32" by simp
  from getStats_rates_binary64 [OF db] d
  have z: "totalAttempts (getStats (freshTracker None)) = 0"
    "completionRate (getStats (freshTracker None)) = 0"
    "averageRating (getStats (freshTracker None)) = 0"
    by simp_all
  have s: "sum_list (map rating_or_zero (attempts (data ratingExample))) < 2 ^ 46"
    using b(2) by simp
  from lb a r b(1) s c f g h z show ?thesis by blast
qed

text \<open>
  The claim as stated fails where a rating is \<open>null\<close>, which the serialization format
  writes for an absent rating: the filter of \<open>ratedAttempts\<close> keeps the attempt and the sum
  counts it as 0, so the ratings 4 and \<open>null\<close> give 2 where the mean of the present
  ratings is 4. It also fails where the sum of the ratings is not a double: the ratings
  \<open>2 ^ 53\<close>, 1 and 1 have the mean 3002399751580331.33.., and \<open>averageRating\<close> is
  3002399751580330.5.
\<close>

theorem getStats_null_rating_counterexample:
  "presentRatings (attempts (data nullRatingExample)) = [4] \<and>
   averageRating (getStats nullRatingExample) = 2 \<and>
   1 / 20 < \<bar>averageRating (getStats nullRatingExample) -
     of_int (sum_list (presentRatings (attempts (data nullRatingExample)))) /
     of_nat (length (presentRatings (attempts (data nullRatingExample))))\<bar> \<and>
   presentRatings (attempts (data bigRatingExample)) = [9007199254740992, 1, 1] \<and>
   averageRating (getStats bigRatingExample) = 6004799503160661 / 2 \<and>
   1 / 20 < \<bar>averageRating (getStats bigRatingExample) -
     of_int (sum_list (presentRatings (attempts (data bigRatingExample)))) /
     of_nat (length (presentRatings (attempts (data bigRatingExample))))\<bar>"
proof -
  have a: "presentRatings (attempts (data nullRatingExample)) = [4]"
    "presentRatings (attempts (data bigRatingExample)) = [9007199254740992, 1, 1]"
    by (simp_all add: nullRatingExample_def bigRatingExample_def storedTracker_def
        attemptsData_def storedAttempt_def presentRatings_def List.map_filter_simps)
  have b: "averageRating (getStats nullRatingExample) = 2"
    unfolding nullRatingExample_def getStats_stored by code_simp
  have c: "averageRating (getStats bigRatingExample) = 6004799503160661 / 2"
    unfolding bigRatingExample_def getStats_stored by code_simp
  have d: "1 / 20 < \<bar>averageRating (getStats nullRatingExample) -
     of_int (sum_list (presentRatings (attempts (data nullRatingExample)))) /
     of_nat (length (presentRatings (attempts (data nullRatingExample))))\<bar>"
    unfolding a b by simp
  have e: "1 / 20 < \<bar>averageRating (getStats bigRatingExample) -
     of_int (sum_list (presentRatings (attempts (data bigRatingExample)))) /
     of_nat (length (presentRatings (attempts (data bigRatingExample))))\<bar>"
    unfolding a c by simp
  from a b c d e show ?thesis by blast
qed

lemma ledger_invariant_iff:
  "ledger_invariant d \<longleftrightarrow>
     (\<forall>sid \<in> set (completedScenarios d).
        \<exists>a \<in> set (attempts d). att_completed a \<and> att_scenarioId a = sid) \<and>
     distinct (completedScenarios d)"
  by (auto simp: ledger_invariant_def completed_backed_def list_all_iff list_ex_iff)

lemma tracker_inv_fresh: "tracker_inv (freshTracker st)"
  by (simp add: tracker_inv_def freshTracker_def ledger_invariant_iff DEFAULT_PROGRESS_DATA_def
      declaredArrays_def)

lemma tracker_inv_enable: "tracker_inv t \<Longrightarrow> tracker_inv (enable t)"
  by (simp add: tracker_inv_def enable_def ledger_invariant_iff)

lemma tracker_inv_disable: "tracker_inv t \<Longrightarrow> tracker_inv (disable options t)"
  by (auto simp: tracker_inv_def disable_def Let_def ledger_invariant_iff DEFAULT_PROGRESS_DATA_def
      split: option.splits)

lemma tracker_inv_recordAttempt: "tracker_inv t \<Longrightarrow> tracker_inv (recordAttempt h input t)"
  unfolding tracker_inv_def recordAttempt_def Let_def ledger_invariant_iff
  by (auto simp: push_attempt_def push_completed_def Let_def DEFAULT_PROGRESS_DATA_def
      saveData_def)

lemma reachable_tracker_inv: "reachable t \<Longrightarrow> tracker_inv t"
  by (induction rule: reachable.induct)
    (simp_all add: tracker_inv_fresh tracker_inv_enable tracker_inv_disable tracker_inv_recordAttempt)

lemma recordAttempt_completedScenarios:
  "completedScenarios (data (recordAttempt h input t)) =
     (if enabled (data t) \<and> in_completed input \<and>
         in_scenarioId input \<notin> set (completedScenarios (data t))
      then completedScenarios (data t) @ [in_scenarioId input]
      else completedScenarios (data t))"
  by (simp add: recordAttempt_def Let_def)

lemma recordAttempt_preserves:
  "ledger_invariant (data t) \<Longrightarrow> ledger_invariant (data (recordAttempt h input t))"
  unfolding recordAttempt_def Let_def ledger_invariant_iff
  by auto

text \<open>
  C9, as the program has it. In every state a tracker reaches from a fresh one by
  \<open>enable\<close>, \<open>disable\<close> and \<open>recordAttempt\<close>, every completed scenario has a completed
  attempt with its identifier and no identifier is listed twice; \<open>enable\<close>, \<open>disable\<close>
  and \<open>recordAttempt\<close> preserve this (together with the same for the arrays of the
  default record, which a cleared tracker shares); \<open>recordAttempt\<close> preserves it from
  any record; and \<open>recordAttempt\<close> appends the identifier exactly when tracking is
  enabled, the attempt is completed and the identifier is not yet listed. \<open>importData\<close>
  is not among these operations.
\<close>

theorem ledger_invariant_without_import:
  "(reachable t \<longrightarrow> ledger_invariant (data t)) \<and>
   (tracker_inv t \<longrightarrow>
      ledger_invariant (data t) \<and> tracker_inv (enable t) \<and>
      tracker_inv (disable options t) \<and> tracker_inv (recordAttempt h input t)) \<and>
   (ledger_invariant (data t) \<longrightarrow> ledger_invariant (data (recordAttempt h input t))) \<and>
   completedScenarios (data (recordAttempt h input t)) =
     (if enabled (data t) \<and> in_completed input \<and>
         in_scenarioId input \<notin> set (completedScenarios (data t))
      then completedScenarios (data t) @ [in_scenarioId input]
      else completedScenarios (data t))"
proof -
  have 1: "reachable t \<longrightarrow> ledger_invariant (data t)"
    using reachable_tracker_inv [of t] by (simp add: tracker_inv_def)
  have 2: "tracker_inv t \<longrightarrow>
      ledger_invariant (data t) \<and> tracker_inv (enable t) \<and>
      tracker_inv (disable options t) \<and> tracker_inv (recordAttempt h input t)"
    using tracker_inv_enable [of t] tracker_inv_disable [of t options]
      tracker_inv_recordAttempt [of t h input]
    by (simp add: tracker_inv_def)
  have 3: "ledger_invariant (data t) \<longrightarrow> ledger_invariant (data (recordAttempt h input t))"
    using recordAttempt_preserves [of t h input] by simp
  from 1 2 3 recordAttempt_completedScenarios [of h input t] show ?thesis by blast
qed

text \<open>The claim as stated fails for \<open>importData\<close>: from a fresh tracker, whose record
  satisfies the invariant, importing the text of a record with a completed scenario and
  no attempt gives a record that violates it.\<close>

theorem importData_breaks_invariant_counterexample:
  "asProgressData (js_data (createProgressTracker declaredArrays None)) =
     Some (DEFAULT_PROGRESS_DATA declaredArrays) \<and>
   ledger_invariant (DEFAULT_PROGRESS_DATA declaredArrays) \<and>
   asProgressData (js_data (importData (serialize existingData)
     (createProgressTracker declaredArrays None))) = Some existingData \<and>
   \<not> ledger_invariant existingData"
proof -
  have a: "asProgressData (js_data (createProgressTracker declaredArrays None)) =
     Some (DEFAULT_PROGRESS_DATA declaredArrays)"
    by (simp add: createProgressTracker_def loadData_def asProgressData_progressToJS)
  have b: "ledger_invariant (DEFAULT_PROGRESS_DATA declaredArrays)"
    by (simp add: ledger_invariant_def completed_backed_def DEFAULT_PROGRESS_DATA_def
        declaredArrays_def)
  have c: "asProgressData (js_data (importData (serialize existingData)
     (createProgressTracker declaredArrays None))) = Some existingData"
    by (simp add: importData_def parse_serialize asProgressData_progressToJS)
  have d: "\<not> ledger_invariant existingData"
    by (simp add: ledger_invariant_def completed_backed_def existingData_def)
  from a b c d show ?thesis by blast
qed

text \<open>The states of the test ``calculates completion rate'' are reachable.\<close>

theorem ledger_invariant_without_import_witness:
  "reachable completionExample \<and> ledger_invariant (data completionExample) \<and>
   completedScenarios (data completionExample) = [''s1'', ''s3'', ''s4'']"
proof -
  have r: "reachable completionExample"
    unfolding completionExample_def by (intro reachable.intros)
  have c: "completedScenarios (data completionExample) = [''s1'', ''s3'', ''s4'']"
    by code_simp
  from ledger_invariant_without_import [of completionExample] r c show ?thesis by blast
qed

end
